theory Spec2Isabelle
  imports Complex_Main
begin

section \<open>Values, exceptions and the outside world\<close>

text \<open>
  The body of a queue record is a JSON object, and \<open>json.loads\<close> gives its fields as
  Python values: \<open>None\<close>, booleans, integers, floats, strings, lists and dictionaries.
  A string is the list of its code points, each below 256. A float is given by its value
  (a rational for a finite double, \<open>None\<close> for \<open>nan\<close> and the infinities) together with
  the text \<open>str\<close> prints for it, which the model does not compute. \<open>body.get(k)\<close> is
  Python's \<open>dict.get\<close>, which gives \<open>None\<close> for a key that is absent.
\<close>

datatype jval =
    JNull
  | JBool bool
  | JInt int
  | JFloat "rat option" string
  | JStr string
  | JArr "jval list"
  | JObj "(string \<times> jval) list"

type_synonym body = "string \<Rightarrow> jval option"

definition body_get :: "body \<Rightarrow> string \<Rightarrow> jval" where
  "body_get b k = (case b k of None \<Rightarrow> JNull | Some v \<Rightarrow> v)"

text \<open>
  Python truthiness, as used by \<open>if not track_id\<close>: \<open>None\<close>, \<open>False\<close>, zero, the empty
  string, the empty list and the empty dictionary are falsy.
\<close>

fun truthy :: "jval \<Rightarrow> bool" where
  "truthy JNull = False"
| "truthy (JBool b) = b"
| "truthy (JInt n) = (n \<noteq> 0)"
| "truthy (JFloat v s) = (v \<noteq> Some 0)"
| "truthy (JStr s) = (s \<noteq> [])"
| "truthy (JArr xs) = (xs \<noteq> [])"
| "truthy (JObj kvs) = (kvs \<noteq> [])"

text \<open>Python's \<open>str\<close> of an integer: decimal digits, with a leading minus sign.\<close>

definition digit_char :: "nat \<Rightarrow> char" where
  "digit_char d = char_of (48 + d)"

fun str_nat :: "nat \<Rightarrow> string" where
  "str_nat n = (if n < 10 then [digit_char n] else str_nat (n div 10) @ [digit_char (n mod 10)])"

declare str_nat.simps [simp del]

definition str_int :: "int \<Rightarrow> string" where
  "str_int i = (if i < 0 then CHR ''-'' # str_nat (nat (- i)) else str_nat (nat i))"

text \<open>
  Python's \<open>repr\<close> of a string: double quotes when the string has a single quote and no
  double quote, single quotes otherwise; the quote and the backslash are escaped, tab,
  newline and carriage return are written \<open>\t\<close>, \<open>\n\<close>, \<open>\r\<close>, and every other code
  point that is not printable is written \<open>\xNN\<close> in lower-case hexadecimal. Below 256
  the code points that are not printable are the controls (0 to 31, 127 to 159), the
  no-break space 160 and the soft hyphen 173.
\<close>

definition hex_digit :: "nat \<Rightarrow> char" where
  "hex_digit d = (if d < 10 then char_of (48 + d) else char_of (87 + d))"

definition printable :: "char \<Rightarrow> bool" where
  "printable c =
     (let n = (of_char c :: nat) in (32 \<le> n \<and> n < 127) \<or> (161 \<le> n \<and> n \<noteq> 173))"

definition escape_char :: "char \<Rightarrow> char \<Rightarrow> string" where
  "escape_char quote c =
     (if c = quote \<or> c = CHR 0x5C then [CHR 0x5C, c]
      else if c = CHR 0x09 then [CHR 0x5C, CHR ''t'']
      else if c = CHR 0x0A then [CHR 0x5C, CHR ''n'']
      else if c = CHR 0x0D then [CHR 0x5C, CHR ''r'']
      else if \<not> printable c
      then [CHR 0x5C, CHR ''x'', hex_digit (of_char c div 16), hex_digit (of_char c mod 16)]
      else [c])"

definition repr_str :: "string \<Rightarrow> string" where
  "repr_str s =
     (let quote = (if CHR 0x27 \<in> set s \<and> CHR 0x22 \<notin> set s then CHR 0x22 else CHR 0x27)
      in quote # concat (map (escape_char quote) s) @ [quote])"

text \<open>\<open>sep.join(parts)\<close>.\<close>

fun join :: "string \<Rightarrow> string list \<Rightarrow> string" where
  "join sep [] = []"
| "join sep [x] = x"
| "join sep (x # y # ys) = x @ sep @ join sep (y # ys)"

text \<open>
  Python's \<open>repr\<close> of a value: a list is written with the \<open>repr\<close> of its items, a
  dictionary with the \<open>repr\<close> of its keys and values.
\<close>

primrec py_repr :: "jval \<Rightarrow> string" where
  "py_repr JNull = ''None''"
| "py_repr (JBool b) = (if b then ''True'' else ''False'')"
| "py_repr (JInt n) = str_int n"
| "py_repr (JFloat v s) = s"
| "py_repr (JStr s) = repr_str s"
| "py_repr (JArr xs) = ''['' @ join '', '' (map py_repr xs) @ '']''"
| "py_repr (JObj kvs) =
     ''{'' @ join '', '' (map (\<lambda>(k, r). repr_str k @ '': '' @ r) (map (map_prod id py_repr) kvs)) @ ''}''"

text \<open>
  What an f-string writes for a value: \<open>format(v, '')\<close>, which is \<open>str(v)\<close>: the string
  itself for a string, the \<open>repr\<close> for every other value here.
\<close>

fun py_str :: "jval \<Rightarrow> string" where
  "py_str JNull = ''None''"
| "py_str (JBool b) = (if b then ''True'' else ''False'')"
| "py_str (JInt n) = str_int n"
| "py_str (JFloat v s) = s"
| "py_str (JStr s) = s"
| "py_str (JArr xs) = py_repr (JArr xs)"
| "py_str (JObj kvs) = py_repr (JObj kvs)"

text \<open>
  Exceptions are values. Each constructor is a Python exception class the code raises
  or receives, with the message \<open>str(e)\<close> gives. \<open>RecordError\<close> stands for whatever
  reading a record raises, \<open>TransferError\<close> for whatever a transfer raises, and
  \<open>MasteringError\<close> for whatever the mastering library raises.
\<close>

datatype error =
    ValueError string
  | TypeError string
  | OverflowError string
  | PyException string
  | KeyError string
  | FileNotFoundError string
  | RecordError string
  | ClientError string
  | TransferError string
  | MasteringError string

fun err_str :: "error \<Rightarrow> string" where
  "err_str (ValueError m) = m"
| "err_str (TypeError m) = m"
| "err_str (OverflowError m) = m"
| "err_str (PyException m) = m"
| "err_str (KeyError k) = repr_str k"
| "err_str (FileNotFoundError p) = ''[Errno 2] No such file or directory: '' @ repr_str p"
| "err_str (RecordError m) = m"
| "err_str (ClientError m) = m"
| "err_str (TransferError m) = m"
| "err_str (MasteringError m) = m"

section \<open>The track catalog\<close>

text \<open>
  \<open>TRACK_FILENAMES\<close> is a dictionary with the integer keys 1, 2, 3. Python looks a key up
  by hash and equality: \<open>True == 1\<close> and \<open>1.0 == 1\<close>, so the boolean \<open>True\<close> and the
  float 1.0 find the entry of 1; no string and no \<open>None\<close> equals an integer. This is the
  content of the dictionary; a list or a dictionary is no key of it.
\<close>

fun TRACK_FILENAMES :: "jval \<Rightarrow> string option" where
  "TRACK_FILENAMES (JInt n) =
     (if n = 1 then Some ''pop_track1.wav''
      else if n = 2 then Some ''norteno_track2.wav''
      else if n = 3 then Some ''urbano_track3.wav''
      else None)"
| "TRACK_FILENAMES (JBool b) = (if b then Some ''pop_track1.wav'' else None)"
| "TRACK_FILENAMES (JFloat v s) =
     (if v = Some 1 then Some ''pop_track1.wav''
      else if v = Some 2 then Some ''norteno_track2.wav''
      else if v = Some 3 then Some ''urbano_track3.wav''
      else None)"
| "TRACK_FILENAMES JNull = None"
| "TRACK_FILENAMES (JStr s) = None"
| "TRACK_FILENAMES (JArr xs) = None"
| "TRACK_FILENAMES (JObj kvs) = None"

text \<open>
  A list or a dictionary cannot be hashed: looking it up raises \<open>TypeError\<close> with the
  name of its type.
\<close>

fun unhashable :: "jval \<Rightarrow> string option" where
  "unhashable (JArr xs) = Some ''list''"
| "unhashable (JObj kvs) = Some ''dict''"
| "unhashable v = None"

text \<open>
  \<open>get_dynamic_s3_paths\<close>: \<open>TRACK_FILENAMES.get(track_id, None)\<close>, then \<open>ValueError\<close>
  when the result is falsy.
\<close>

definition get_dynamic_s3_paths :: "jval \<Rightarrow> error + string" where
  "get_dynamic_s3_paths track_id =
     (case unhashable track_id of
        Some type_name \<Rightarrow> Inl (TypeError (''unhashable type: '' @ repr_str type_name))
      | None \<Rightarrow>
          (case TRACK_FILENAMES track_id of
             None \<Rightarrow> Inl (ValueError (''Invalid trackID: '' @ py_str track_id))
           | Some track_filename \<Rightarrow>
               if track_filename = [] then Inl (ValueError (''Invalid trackID: '' @ py_str track_id))
               else Inr (''static/audio/'' @ track_filename)))"

section \<open>Polling the object store\<close>

text \<open>
  One \<open>head_object\<close> call either finds the object, or raises a \<open>ClientError\<close> whose
  code is 404, or raises a \<open>ClientError\<close> with another code.
\<close>

datatype probe = Found | NotFound | OtherClientError string

text \<open>
  \<open>timeout\<close>, \<open>interval\<close> and \<open>elapsed_time\<close> are Python numbers, integers or floats.
  The loop uses three operations on them: the 0 that \<open>elapsed_time\<close> starts from,
  \<open>elapsed_time < timeout\<close> and \<open>elapsed_time + interval\<close>; and \<open>time.sleep(interval)\<close>
  may raise. They are the parameters of the loop, so that it is the same loop for every
  kind of number, floating-point addition included.
\<close>

record 't clock =
  clock_zero :: 't
  clock_less :: "'t \<Rightarrow> 't \<Rightarrow> bool"
  clock_add :: "'t \<Rightarrow> 't \<Rightarrow> 't"
  clock_sleep :: "'t \<Rightarrow> error option"

text \<open>
  Python integers, which are unbounded. \<open>time.sleep\<close> converts the seconds to a signed
  64-bit count of nanoseconds and raises \<open>OverflowError\<close> when they do not fit, then
  raises \<open>ValueError\<close> for a negative length.
\<close>

definition python_int :: "int clock" where
  "python_int =
     \<lparr>clock_zero = 0,
      clock_less = (\<lambda>a b. a < b),
      clock_add = (\<lambda>a b. a + b),
      clock_sleep = (\<lambda>secs.
        if secs < - 9223372036 \<or> 9223372036 < secs
        then Some (OverflowError ''timestamp too large to convert to C _PyTime_t'')
        else if secs < 0 then Some (ValueError ''sleep length must be non-negative'')
        else None)\<rparr>"

text \<open>
  The loop of \<open>wait_for_file\<close>. \<open>head n\<close> is the answer of the object store to the
  \<open>n\<close>-th \<open>head_object\<close> call made on it, \<open>elapsed\<close> is the local
  \<open>elapsed_time\<close>, and the result carries the number of calls made so far. An exception
  of \<open>time.sleep\<close> leaves the function, as the \<open>except\<close> clause it is raised in handles
  no exception of its own. The loop may run for ever (an interval of 0 and an object that
  never appears), so the result is an option: \<open>None\<close> means the loop never returns.
\<close>

partial_function (option) wait_loop ::
  "'t clock \<Rightarrow> (nat \<Rightarrow> probe) \<Rightarrow> 't \<Rightarrow> 't \<Rightarrow> 't \<Rightarrow> nat \<Rightarrow> ((error + bool) \<times> nat) option" where
  "wait_loop C head timeout interval elapsed n =
     (if clock_less C elapsed timeout then
        (case head n of
           Found \<Rightarrow> Some (Inr True, Suc n)
         | NotFound \<Rightarrow>
             (case clock_sleep C interval of
                Some e \<Rightarrow> Some (Inl e, Suc n)
              | None \<Rightarrow> wait_loop C head timeout interval (clock_add C elapsed interval) (Suc n))
         | OtherClientError m \<Rightarrow> Some (Inl (ClientError m), Suc n))
      else Some (Inr False, n))"

definition wait_for_file ::
  "'t clock \<Rightarrow> (nat \<Rightarrow> probe) \<Rightarrow> 't \<Rightarrow> 't \<Rightarrow> nat \<Rightarrow> ((error + bool) \<times> nat) option" where
  "wait_for_file C head timeout interval n = wait_loop C head timeout interval (clock_zero C) n"

text \<open>
  The value of \<open>elapsed_time\<close> after \<open>k\<close> more sleeps, starting from \<open>e\<close>: the interval
  added \<open>k\<close> times, in the arithmetic of the numbers.
\<close>

definition elapsed_after :: "'t clock \<Rightarrow> 't \<Rightarrow> 't \<Rightarrow> nat \<Rightarrow> 't" where
  "elapsed_after C interval e k = ((\<lambda>x. clock_add C x interval) ^^ k) e"

text \<open>
  Probe number \<open>k\<close> (counted from 0) is still followed by another turn of the loop: the
  loop test \<open>elapsed_time < timeout\<close> passes after \<open>k\<close> sleeps, and the probe made then
  is answered by 404.
\<close>

definition pending :: "'t clock \<Rightarrow> (nat \<Rightarrow> probe) \<Rightarrow> 't \<Rightarrow> 't \<Rightarrow> nat \<Rightarrow> nat \<Rightarrow> bool" where
  "pending C head timeout interval n k =
     (clock_less C (elapsed_after C interval (clock_zero C) k) timeout \<and> head (n + k) = NotFound)"

section \<open>Audio buffers and the mixer\<close>

text \<open>
  A decoded audio buffer is kept as the list of its frames. A local file either holds a
  WAV buffer or something \<open>AudioSegment.from_wav\<close> cannot decode.
\<close>

type_synonym audio = "int list"

datatype content = Wav audio | NotWav

type_synonym filesystem = "string \<Rightarrow> content option"

text \<open>
  \<open>AudioSegment.from_wav(path)\<close>: \<open>None\<close> stands for the exception raised for a file
  that is missing or is not a WAV file.
\<close>

definition from_wav :: "filesystem \<Rightarrow> string \<Rightarrow> audio option" where
  "from_wav fls path = (case fls path of None \<Rightarrow> None | Some NotWav \<Rightarrow> None | Some (Wav a) \<Rightarrow> Some a)"

text \<open>
  The operations of the external audio library pydub that \<open>mix_tracks\<close> calls are
  parameters: \<open>len(seg)\<close>, the duration in milliseconds; \<open>AudioSegment.silent(duration=d)\<close>,
  called with the duration only, so at the frame rate the library chooses;
  \<open>a + b\<close>; \<open>a[:n]\<close>; and \<open>base.overlay(seg)\<close>. Each but the first may raise, which is
  \<open>None\<close>.
\<close>

record audio_lib =
  seg_len :: "audio \<Rightarrow> nat"
  seg_silent :: "nat \<Rightarrow> audio option"
  seg_add :: "audio \<Rightarrow> audio \<Rightarrow> audio option"
  seg_slice :: "audio \<Rightarrow> nat \<Rightarrow> audio option"
  seg_overlay :: "audio \<Rightarrow> audio \<Rightarrow> audio option"

text \<open>\<open>mix_tracks\<close>: any exception inside is caught and turned into \<open>None\<close>.\<close>

definition mix_tracks :: "audio_lib \<Rightarrow> filesystem \<Rightarrow> string \<Rightarrow> string \<Rightarrow> audio option" where
  "mix_tracks L fls vocals_path instrumental_path =
     (case from_wav fls vocals_path of
        None \<Rightarrow> None
      | Some vocals \<Rightarrow>
          (case from_wav fls instrumental_path of
             None \<Rightarrow> None
           | Some instrumental \<Rightarrow>
               (case (if seg_len L vocals < seg_len L instrumental
                      then (case seg_silent L (seg_len L instrumental - seg_len L vocals) of
                              None \<Rightarrow> None
                            | Some silence \<Rightarrow> seg_add L vocals silence)
                      else if seg_len L vocals > seg_len L instrumental
                      then seg_slice L vocals (seg_len L instrumental)
                      else Some vocals) of
                  None \<Rightarrow> None
                | Some vocals' \<Rightarrow> seg_overlay L vocals' instrumental)))"

section \<open>The world the handler acts on\<close>

text \<open>
  A status event is the JSON payload \<open>notify_system_api\<close> posts to the webhook.
\<close>

record status_event =
  ev_songID :: jval
  ev_stage :: string
  ev_action :: string
  ev_fileName :: "string option"
  ev_errMsg :: "string option"

datatype log_line = LogError string | LogWarning string

text \<open>
  The mutable state: the local file system, the number of \<open>head_object\<close> calls made so
  far, the payloads handed to the webhook (oldest first), the objects uploaded (key and
  content), the error and warning lines \<open>lambda_handler\<close> itself logs (the informational
  lines and the lines logged by the helpers are left out), and the module-level global
  \<open>LAMBDA_STATIC_INSTRUMENTAL_WAV_PATH\<close>, unset until \<open>initialize_s3_paths\<close> runs.
\<close>

record world =
  files :: filesystem
  head_calls :: nat
  events :: "status_event list"
  uploads :: "(string \<times> content) list"
  log :: "log_line list"
  instrumental_wav_path :: "string option"

text \<open>
  The external services, as the answers they give: the object store's answer to the
  \<open>n\<close>-th existence probe for a key, the outcome of a download (the object's content or
  the exception), the audio library, the outcome of exporting a mixed buffer and mastering
  it against the reference file (the file written, or the exception), the outcome of an
  upload to a key,
  the exception (if any) of the webhook POST, and the exception (if any) of
  \<open>os.remove\<close>. The bucket is the single configured one.
\<close>

record env =
  head_object :: "string \<Rightarrow> nat \<Rightarrow> probe"
  download_file :: "string \<Rightarrow> error + content"
  pydub :: audio_lib
  mg_process :: "audio \<Rightarrow> content option \<Rightarrow> error + content"
  upload_file :: "string \<Rightarrow> error option"
  post_fails :: "status_event \<Rightarrow> string option"
  os_remove :: "string \<Rightarrow> error option"

text \<open>
  A step of the program takes the world and gives an exception or a value, with the new
  world; \<open>None\<close> is a step that never returns.
\<close>

type_synonym 'a prog = "world \<Rightarrow> ((error + 'a) \<times> world) option"

definition ok :: "'a \<Rightarrow> 'a prog" where
  "ok x w = Some (Inr x, w)"

definition throw :: "error \<Rightarrow> 'a prog" where
  "throw e w = Some (Inl e, w)"

definition seq :: "'a prog \<Rightarrow> ('a \<Rightarrow> 'b prog) \<Rightarrow> 'b prog" where
  "seq m f w =
     (case m w of
        None \<Rightarrow> None
      | Some (Inl e, w') \<Rightarrow> Some (Inl e, w')
      | Some (Inr x, w') \<Rightarrow> f x w')"

section \<open>Constants and paths\<close>

definition LAMBDA_STATIC_REFERENCE_WAV_PATH :: string where
  "LAMBDA_STATIC_REFERENCE_WAV_PATH = ''static/audio/reference.wav''"

definition LOCAL_REFERENCE_PATH :: string where
  "LOCAL_REFERENCE_PATH = ''/tmp/reference.wav''"

definition LOCAL_INSTRUMENTAL_PATH :: string where
  "LOCAL_INSTRUMENTAL_PATH = ''/tmp/instrumental.wav''"

definition LOCAL_FINAL_FILE :: "string option" where
  "LOCAL_FINAL_FILE = None"

definition LOCAL_VOCALS_PATH :: "string option" where
  "LOCAL_VOCALS_PATH = None"

text \<open>The three f-strings of lines 178 to 180, and the upload key and file name.\<close>

definition local_final_file :: "jval \<Rightarrow> string" where
  "local_final_file song_id = ''/tmp/final_song_'' @ py_str song_id @ ''.wav''"

definition local_vocals_path :: "jval \<Rightarrow> string" where
  "local_vocals_path song_id = ''/tmp/vocals_'' @ py_str song_id @ ''.wav''"

definition lambda_vocals_path :: "jval \<Rightarrow> string" where
  "lambda_vocals_path file_name = ''utau_inference/'' @ py_str file_name"

definition final_name :: "jval \<Rightarrow> jval \<Rightarrow> string" where
  "final_name song_id track_id = ''final_song_'' @ py_str song_id @ ''_'' @ py_str track_id @ ''.wav''"

text \<open>
  The local paths one Job stages files at: the reference, the instrumental, the vocals and
  the final output, as \<open>lambda_handler\<close> passes them to the downloads and to
  \<open>process_files\<close>.
\<close>

definition staging_paths :: "jval \<Rightarrow> string list" where
  "staging_paths song_id =
     [LOCAL_REFERENCE_PATH, LOCAL_INSTRUMENTAL_PATH,
      local_vocals_path song_id, local_final_file song_id]"

section \<open>The helpers\<close>

definition initialize_s3_paths :: "jval \<Rightarrow> unit prog" where
  "initialize_s3_paths track_id w =
     (case get_dynamic_s3_paths track_id of
        Inl e \<Rightarrow> Some (Inl e, w)
      | Inr p \<Rightarrow> Some (Inr (), w\<lparr>instrumental_wav_path := Some p\<rparr>))"

text \<open>
  \<open>upload_file_to_s3\<close>: the exception is logged and raised again. Uploading a local file
  that does not exist raises \<open>FileNotFoundError\<close>.
\<close>

definition upload_file_to_s3 :: "env \<Rightarrow> string \<Rightarrow> string \<Rightarrow> unit prog" where
  "upload_file_to_s3 E local_file key w =
     (case files w local_file of
        None \<Rightarrow> Some (Inl (FileNotFoundError local_file), w)
      | Some c \<Rightarrow>
          (case upload_file E key of
             Some e \<Rightarrow> Some (Inl e, w)
           | None \<Rightarrow> Some (Inr (), w\<lparr>uploads := uploads w @ [(key, c)]\<rparr>)))"

text \<open>
  \<open>wait_for_file(bucket_name, key, s3_client)\<close> as the handler calls it, with the default
  \<open>timeout=10\<close> and \<open>interval=5\<close>, on the call counter of the world.
\<close>

definition wait_for_file_default :: "env \<Rightarrow> string \<Rightarrow> bool prog" where
  "wait_for_file_default E key w =
     (case wait_for_file python_int (head_object E key) 10 5 (head_calls w) of
        None \<Rightarrow> None
      | Some (r, n) \<Rightarrow> Some (r, w\<lparr>head_calls := n\<rparr>))"

definition download_file_from_s3 :: "env \<Rightarrow> string \<Rightarrow> string \<Rightarrow> unit prog" where
  "download_file_from_s3 E key local_output_file w =
     (case download_file E key of
        Inl e \<Rightarrow> Some (Inl e, w)
      | Inr c \<Rightarrow> Some (Inr (), w\<lparr>files := (files w)(local_output_file \<mapsto> c)\<rparr>))"

text \<open>
  \<open>process_files\<close>: mix, fail with \<open>ValueError\<close> when the mixer gave \<open>None\<close>, then master
  the mixed buffer against the reference file into \<open>output_path\<close>; every exception is logged
  and raised again.
\<close>

definition process_files :: "env \<Rightarrow> string \<Rightarrow> string \<Rightarrow> string \<Rightarrow> string \<Rightarrow> unit prog" where
  "process_files E vocals_path instrumental_path output_path reference_path w =
     (case mix_tracks (pydub E) (files w) vocals_path instrumental_path of
        None \<Rightarrow> Some (Inl (ValueError ''Failed to mix audio tracks.''), w)
      | Some mixed_audio \<Rightarrow>
          (case mg_process E mixed_audio (files w reference_path) of
             Inl e \<Rightarrow> Some (Inl e, w)
           | Inr c \<Rightarrow> Some (Inr (), w\<lparr>files := (files w)(output_path \<mapsto> c)\<rparr>)))"

text \<open>
  \<open>notify_system_api\<close>: the payload is built and posted; a \<open>RequestException\<close> of the POST
  is caught inside, so the call returns normally either way.
\<close>

definition notify_system_api ::
  "env \<Rightarrow> jval \<Rightarrow> string \<Rightarrow> string \<Rightarrow> string option \<Rightarrow> string option \<Rightarrow> unit prog" where
  "notify_system_api E song_id stage action file_name err_msg w =
     (let payload = \<lparr>ev_songID = song_id, ev_stage = stage, ev_action = action,
                      ev_fileName = file_name, ev_errMsg = err_msg\<rparr>;
          w' = w\<lparr>events := events w @ [payload]\<rparr>
      in case post_fails E payload of
           None \<Rightarrow> Some (Inr (), w')
         | Some request_exception \<Rightarrow> Some (Inr (), w'))"

section \<open>The handler\<close>

text \<open>
  A queue record: either \<open>json.loads(record['body'])\<close> gives a JSON object, or reading the
  record fails with an exception before any field is read (no \<open>body\<close> key, a body that
  is not JSON, a JSON value that has no \<open>get\<close>). The event may lack the \<open>Records\<close> key.
\<close>

datatype sqs_record = Body body | Unreadable error

type_synonym event = "sqs_record list option"

text \<open>
  Lines 178 to 204: the local paths, the \<open>start\<close> event, the three waits and downloads
  in their fixed order, mixing and mastering, the upload and the \<open>end\<close> event.
  \<open>path\<close> is the value of the global \<open>LAMBDA_STATIC_INSTRUMENTAL_WAV_PATH\<close>.
\<close>

definition stage_and_process :: "env \<Rightarrow> jval \<Rightarrow> jval \<Rightarrow> jval \<Rightarrow> string \<Rightarrow> unit prog" where
  "stage_and_process E song_id file_name track_id path =
     seq (notify_system_api E song_id ''matchering'' ''start'' None None) (\<lambda>_.
     seq (wait_for_file_default E LAMBDA_STATIC_REFERENCE_WAV_PATH) (\<lambda>available.
     seq (if available
          then download_file_from_s3 E LAMBDA_STATIC_REFERENCE_WAV_PATH LOCAL_REFERENCE_PATH
          else throw (PyException ''Reference file not available within timeout'')) (\<lambda>_.
     seq (wait_for_file_default E path) (\<lambda>available.
     seq (if available
          then download_file_from_s3 E path LOCAL_INSTRUMENTAL_PATH
          else throw (PyException ''Instrumental file not available within timeout'')) (\<lambda>_.
     seq (wait_for_file_default E (lambda_vocals_path file_name)) (\<lambda>available.
     seq (if available
          then download_file_from_s3 E (lambda_vocals_path file_name) (local_vocals_path song_id)
          else throw (PyException (''Vocals file not available: '' @ lambda_vocals_path file_name))) (\<lambda>_.
     seq (process_files E (local_vocals_path song_id) LOCAL_INSTRUMENTAL_PATH
            (local_final_file song_id) LOCAL_REFERENCE_PATH) (\<lambda>_.
     seq (upload_file_to_s3 E (local_final_file song_id)
            (''matchering/'' @ final_name song_id track_id)) (\<lambda>_.
     notify_system_api E song_id ''matchering'' ''end''
       (Some (final_name song_id track_id)) None)))))))))"

text \<open>
  Lines 170 to 204: what the loop body does once the three fields are read. The check of
  \<open>track_id\<close> comes first, then \<open>initialize_s3_paths\<close> sets the global, which is read
  back and checked before the rest runs.
\<close>

definition job_steps :: "env \<Rightarrow> jval \<Rightarrow> jval \<Rightarrow> jval \<Rightarrow> unit prog" where
  "job_steps E song_id file_name track_id =
     (if \<not> truthy track_id then throw (ValueError ''Region or track ID is missing.'')
      else
        seq (initialize_s3_paths track_id) (\<lambda>_.
        seq (\<lambda>w. ok (instrumental_wav_path w) w) (\<lambda>global_path.
          case (case global_path of None \<Rightarrow> None | Some p \<Rightarrow> if p = [] then None else Some p) of
            None \<Rightarrow> throw (ValueError ''LAMBDA_STATIC_INSTRUMENTAL_WAV_PATH is not set.'')
          | Some path \<Rightarrow> stage_and_process E song_id file_name track_id path)))"

text \<open>
  One turn of the loop over \<open>event['Records']\<close>. The variable \<open>song_id\<close> of the handler
  is assigned from the body, so the result carries its value: the one read from this record,
  or the value it had before when the record could not be read.
\<close>

definition handle_record ::
  "env \<Rightarrow> sqs_record \<Rightarrow> jval \<Rightarrow> world \<Rightarrow> ((error + unit) \<times> jval \<times> world) option" where
  "handle_record E r song_id0 w =
     (case r of
        Unreadable e \<Rightarrow> Some (Inl e, song_id0, w)
      | Body b \<Rightarrow>
          (let song_id = body_get b ''songID'';
               file_name = body_get b ''fileName'';
               track_id = body_get b ''trackID''
           in case job_steps E song_id file_name track_id w of
                None \<Rightarrow> None
              | Some (res, w') \<Rightarrow> Some (res, song_id, w')))"

fun records_loop ::
  "env \<Rightarrow> sqs_record list \<Rightarrow> jval \<Rightarrow> world \<Rightarrow> ((error + unit) \<times> jval \<times> world) option" where
  "records_loop E [] song_id w = Some (Inr (), song_id, w)"
| "records_loop E (r # rs) song_id w =
     (case handle_record E r song_id w of
        None \<Rightarrow> None
      | Some (Inl e, song_id', w') \<Rightarrow> Some (Inl e, song_id', w')
      | Some (Inr u, song_id', w') \<Rightarrow> records_loop E rs song_id' w')"

text \<open>
  The \<open>finally\<close> block, for one entry of the list: a path that is \<open>None\<close> or empty, or
  that does not exist, is skipped; a failing \<open>os.remove\<close> is logged as a warning.
\<close>

definition remove_temporary :: "env \<Rightarrow> world \<Rightarrow> string option \<Rightarrow> world" where
  "remove_temporary E w file_path =
     (case file_path of
        None \<Rightarrow> w
      | Some p \<Rightarrow>
          if p \<noteq> [] \<and> files w p \<noteq> None
          then (case os_remove E p of
                  None \<Rightarrow> w\<lparr>files := (files w)(p := None)\<rparr>
                | Some e \<Rightarrow>
                    w\<lparr>log := log w @ [LogWarning (''Failed to delete '' @ p @ '': '' @ err_str e)]\<rparr>)
          else w)"

definition cleanup :: "env \<Rightarrow> world \<Rightarrow> world" where
  "cleanup E w =
     foldl (remove_temporary E) w
       [LOCAL_VOCALS_PATH, LOCAL_FINAL_FILE, Some LOCAL_REFERENCE_PATH, Some LOCAL_INSTRUMENTAL_PATH]"

text \<open>
  The \<open>try\<close> block of \<open>lambda_handler\<close>: \<open>song_id\<close> starts as 0, and
  \<open>event['Records']\<close> raises \<open>KeyError\<close> when the key is absent.
\<close>

definition try_block ::
  "env \<Rightarrow> event \<Rightarrow> world \<Rightarrow> ((error + unit) \<times> jval \<times> world) option" where
  "try_block E event w =
     (let song_id = JInt 0
      in case event of
           None \<Rightarrow> Some (Inl (KeyError ''Records''), song_id, w)
         | Some records \<Rightarrow> records_loop E records song_id w)"

text \<open>
  The \<open>except Exception\<close> clause: the error is logged and an \<open>error\<close> event is sent
  with the current \<open>song_id\<close> and \<open>str(e)\<close>.
\<close>

definition except_clause :: "env \<Rightarrow> jval \<Rightarrow> error \<Rightarrow> unit prog" where
  "except_clause E song_id e w =
     notify_system_api E song_id ''matchering'' ''error'' None (Some (err_str e))
       (w\<lparr>log := log w @ [LogError (''Error in lambda_handler: '' @ err_str e)]\<rparr>)"

text \<open>
  \<open>lambda_handler\<close>: \<open>try\<close>, then \<open>except\<close> when the block raised, then the
  \<open>finally\<close> block whatever the outcome; an exception still pending after it would go on
  to the caller.
\<close>

definition lambda_handler :: "env \<Rightarrow> event \<Rightarrow> unit prog" where
  "lambda_handler E event w =
     (case try_block E event w of
        None \<Rightarrow> None
      | Some (res, song_id, w1) \<Rightarrow>
          (case (case res of
                   Inr u \<Rightarrow> Some (Inr (), w1)
                 | Inl e \<Rightarrow> except_clause E song_id e w1)
           of None \<Rightarrow> None
            | Some (res', w2) \<Rightarrow> Some (res', cleanup E w2)))"

section \<open>Scenarios\<close>

text \<open>
  A world with no local files and nothing sent yet; an environment in which every object
  is present at the first probe and every external call succeeds (the vocals object is
  two time units long, the others three; the audio library keeps one frame per
  millisecond and pads, cuts and adds exactly; mastering returns the mixed buffer as it
  is); and the Job of the end-to-end scenario.
\<close>

definition fresh_world :: world where
  "fresh_world = \<lparr>files = (\<lambda>p. None), head_calls = 0, events = [], uploads = [], log = [],
                   instrumental_wav_path = None\<rparr>"

definition all_present :: env where
  "all_present =
     \<lparr>head_object = (\<lambda>key n. Found),
      download_file = (\<lambda>key. Inr (Wav (if key = ''utau_inference/v42.wav'' then [1, 2] else [10, 20, 30]))),
      pydub = \<lparr>seg_len = (\<lambda>a. length a),
                seg_silent = (\<lambda>d. Some (replicate d 0)),
                seg_add = (\<lambda>a b. Some (a @ b)),
                seg_slice = (\<lambda>a n. Some (take n a)),
                seg_overlay = (\<lambda>base seg.
                  Some (map (\<lambda>(x, y). x + y) (zip base seg) @ drop (length seg) base))\<rparr>,
      mg_process = (\<lambda>mixed reference. Inr (Wav mixed)),
      upload_file = (\<lambda>key. None),
      post_fails = (\<lambda>payload. None),
      os_remove = (\<lambda>p. None)\<rparr>"

definition job_42 :: body where
  "job_42 = [''songID'' \<mapsto> JInt 42, ''fileName'' \<mapsto> JStr ''v42.wav'', ''trackID'' \<mapsto> JInt 2]"


section \<open>The steps of a Job, as the spec lists them\<close>

text \<open>
  The spec's \<open>waitUntilAvailable\<close> with the handler's bounds (a timeout of 10 and an
  interval of 5, so two probes at most): the object is found at the first probe, or at the
  second after a 404. The result is the call counter afterwards.
\<close>

definition found_by :: "env \<Rightarrow> string \<Rightarrow> nat \<Rightarrow> nat option" where
  "found_by E key n =
     (case head_object E key n of
        Found \<Rightarrow> Some (Suc n)
      | NotFound \<Rightarrow>
          (case head_object E key (Suc n) of
             Found \<Rightarrow> Some (Suc (Suc n))
           | NotFound \<Rightarrow> None
           | OtherClientError m \<Rightarrow> None)
      | OtherClientError m \<Rightarrow> None)"

text \<open>
  The spec's steps 2 to 7 for one Job, as a condition on the outside world: the
  \<open>trackID\<close> is in the catalog; the reference, the instrumental and the vocals, in that
  order, are each found and downloaded; the mixer gives a buffer for the staged vocals and
  instrumental; mastering against the staged reference gives a file; and the upload of
  the final file succeeds.
\<close>

definition all_steps_succeed :: "env \<Rightarrow> jval \<Rightarrow> jval \<Rightarrow> jval \<Rightarrow> world \<Rightarrow> bool" where
  "all_steps_succeed E song_id file_name track_id w =
     (case TRACK_FILENAMES track_id of
        None \<Rightarrow> False
      | Some f \<Rightarrow>
     (case found_by E LAMBDA_STATIC_REFERENCE_WAV_PATH (head_calls w) of
        None \<Rightarrow> False
      | Some n1 \<Rightarrow>
     (case download_file E LAMBDA_STATIC_REFERENCE_WAV_PATH of
        Inl e \<Rightarrow> False
      | Inr reference \<Rightarrow>
     (case found_by E (''static/audio/'' @ f) n1 of
        None \<Rightarrow> False
      | Some n2 \<Rightarrow>
     (case download_file E (''static/audio/'' @ f) of
        Inl e \<Rightarrow> False
      | Inr instrumental \<Rightarrow>
     (case found_by E (lambda_vocals_path file_name) n2 of
        None \<Rightarrow> False
      | Some n3 \<Rightarrow>
     (case download_file E (lambda_vocals_path file_name) of
        Inl e \<Rightarrow> False
      | Inr vocals \<Rightarrow>
     (let staged = (files w)(LOCAL_REFERENCE_PATH \<mapsto> reference,
                             LOCAL_INSTRUMENTAL_PATH \<mapsto> instrumental,
                             local_vocals_path song_id \<mapsto> vocals)
      in case mix_tracks (pydub E) staged (local_vocals_path song_id) LOCAL_INSTRUMENTAL_PATH of
           None \<Rightarrow> False
         | Some mixed \<Rightarrow>
             (case mg_process E mixed (staged LOCAL_REFERENCE_PATH) of
                Inl e \<Rightarrow> False
              | Inr mastered \<Rightarrow>
                  upload_file E (''matchering/'' @ final_name song_id track_id) = None)))))))))"

section \<open>What a step emits\<close>

text \<open>
  The three payloads of the handler: \<open>start\<close>, \<open>end\<close> with the name of the uploaded
  file, and \<open>error\<close> with the message.
\<close>

definition start_event :: "jval \<Rightarrow> status_event" where
  "start_event song_id =
     \<lparr>ev_songID = song_id, ev_stage = ''matchering'', ev_action = ''start'',
      ev_fileName = None, ev_errMsg = None\<rparr>"

definition end_event :: "jval \<Rightarrow> jval \<Rightarrow> status_event" where
  "end_event song_id track_id =
     \<lparr>ev_songID = song_id, ev_stage = ''matchering'', ev_action = ''end'',
      ev_fileName = Some (final_name song_id track_id), ev_errMsg = None\<rparr>"

definition error_event :: "jval \<Rightarrow> string \<Rightarrow> status_event" where
  "error_event song_id msg =
     \<lparr>ev_songID = song_id, ev_stage = ''matchering'', ev_action = ''error'',
      ev_fileName = None, ev_errMsg = Some msg\<rparr>"

text \<open>
  \<open>emits k m a b\<close>: from every world the step \<open>m\<close> returns, having made at least \<open>k\<close>
  existence probes and having sent exactly the events \<open>a\<close> when it raised and exactly the
  events \<open>b\<close> when it did not.
\<close>

definition emits :: "nat \<Rightarrow> 'a prog \<Rightarrow> status_event list \<Rightarrow> status_event list \<Rightarrow> bool" where
  "emits k m a b =
     (\<forall>w. \<exists>r w'. m w = Some (r, w') \<and> head_calls w + k \<le> head_calls w' \<and>
        events w' = events w @ (case r of Inl e \<Rightarrow> a | Inr x \<Rightarrow> b))"

section \<open>Properties of the polling loop\<close>

lemma elapsed_after_0: "elapsed_after C interval e 0 = e"
  by (simp add: elapsed_after_def)

lemma elapsed_after_Suc:
  "elapsed_after C interval e (Suc k) = elapsed_after C interval (clock_add C e interval) k"
  using funpow_swap1 [of "\<lambda>x. clock_add C x interval" k e] by (simp add: elapsed_after_def)

lemma wait_loop_skip:
  assumes "clock_sleep C interval = None"
  shows "(\<forall>j<k. clock_less C (elapsed_after C interval e j) timeout \<and> head (n + j) = NotFound) \<Longrightarrow>
         wait_loop C head timeout interval e n =
         wait_loop C head timeout interval (elapsed_after C interval e k) (n + k)"
proof (induction k arbitrary: e n)
  case 0
  show ?case by (simp add: elapsed_after_0)
next
  case (Suc k)
  have z: "clock_less C e timeout \<and> head n = NotFound"
    using Suc.prems [rule_format, of 0] by (simp add: elapsed_after_0)
  have step: "wait_loop C head timeout interval e n =
        wait_loop C head timeout interval (clock_add C e interval) (Suc n)"
    using z assms by (subst wait_loop.simps) simp
  have rest: "\<forall>j<k. clock_less C (elapsed_after C interval (clock_add C e interval) j) timeout \<and>
                 head (Suc n + j) = NotFound"
  proof (intro allI impI)
    fix j assume "j < k"
    then have "Suc j < Suc k" by simp
    then have "clock_less C (elapsed_after C interval e (Suc j)) timeout \<and> head (n + Suc j) = NotFound"
      using Suc.prems by blast
    then show "clock_less C (elapsed_after C interval (clock_add C e interval) j) timeout \<and>
                 head (Suc n + j) = NotFound"
      by (simp add: elapsed_after_Suc)
  qed
  have "wait_loop C head timeout interval (clock_add C e interval) (Suc n) =
        wait_loop C head timeout interval
          (elapsed_after C interval (clock_add C e interval) k) (Suc n + k)"
    by (rule Suc.IH [OF rest])
  then show ?case using step by (simp add: elapsed_after_Suc)
qed

lemma wait_loop_returned:
  assumes "wait_loop C head timeout interval e n = Some r"
  shows "clock_sleep C interval = None \<longrightarrow>
   (\<exists>k. \<not> (clock_less C (elapsed_after C interval e k) timeout \<and> head (n + k) = NotFound))"
proof (rule wait_loop.raw_induct [where P = "\<lambda>C head timeout interval e n r.
    clock_sleep C interval = None \<longrightarrow>
    (\<exists>k. \<not> (clock_less C (elapsed_after C interval e k) timeout \<and> head (n + k) = NotFound))",
    OF _ assms])
  fix loop :: "'a clock \<Rightarrow> (nat \<Rightarrow> probe) \<Rightarrow> 'a \<Rightarrow> 'a \<Rightarrow> 'a \<Rightarrow> nat \<Rightarrow> ((error + bool) \<times> nat) option"
  fix C head timeout interval e n r
  assume IH: "\<And>C head timeout interval e n r. loop C head timeout interval e n = Some r \<Longrightarrow>
    clock_sleep C interval = None \<longrightarrow>
    (\<exists>k. \<not> (clock_less C (elapsed_after C interval e k) timeout \<and> head (n + k) = NotFound))"
  assume body: "(if clock_less C e timeout
      then case head n of Found \<Rightarrow> Some (Inr True, Suc n)
           | NotFound \<Rightarrow>
               (case clock_sleep C interval of
                  None \<Rightarrow> loop C head timeout interval (clock_add C e interval) (Suc n)
                | Some e \<Rightarrow> Some (Inl e, Suc n))
           | OtherClientError m \<Rightarrow> Some (Inl (ClientError m), Suc n)
      else Some (Inr False, n)) = Some r"
  show "clock_sleep C interval = None \<longrightarrow>
    (\<exists>k. \<not> (clock_less C (elapsed_after C interval e k) timeout \<and> head (n + k) = NotFound))"
  proof
    assume s: "clock_sleep C interval = None"
    show "\<exists>k. \<not> (clock_less C (elapsed_after C interval e k) timeout \<and> head (n + k) = NotFound)"
    proof (cases "clock_less C e timeout \<and> head n = NotFound")
      case False
      then have "\<not> (clock_less C (elapsed_after C interval e 0) timeout \<and> head (n + 0) = NotFound)"
        by (simp add: elapsed_after_0)
      then show ?thesis by blast
    next
      case True
      then have "loop C head timeout interval (clock_add C e interval) (Suc n) = Some r"
        using body s by simp
      then obtain k where
        "\<not> (clock_less C (elapsed_after C interval (clock_add C e interval) k) timeout \<and>
            head (Suc n + k) = NotFound)"
        using IH s by blast
      then have "\<not> (clock_less C (elapsed_after C interval e (Suc k)) timeout \<and>
            head (n + Suc k) = NotFound)"
        by (simp add: elapsed_after_Suc)
      then show ?thesis by blast
    qed
  qed
qed

lemma wait_loop_never:
  assumes "clock_sleep C interval = None"
    and "\<forall>k. clock_less C (elapsed_after C interval e k) timeout \<and> head (n + k) = NotFound"
  shows "wait_loop C head timeout interval e n = None"
proof (cases "wait_loop C head timeout interval e n")
  case None
  then show ?thesis .
next
  case (Some r)
  then show ?thesis using wait_loop_returned [OF Some] assms by blast
qed

text \<open>The first probe that is not both made and answered by 404.\<close>

lemma first_stop:
  fixes P :: "nat \<Rightarrow> bool"
  assumes "\<not> (\<forall>k. P k)"
  shows "\<exists>k. (\<forall>j<k. P j) \<and> \<not> P k"
proof -
  have ex: "\<exists>k. \<not> P k" using assms by blast
  define k0 where "k0 = (LEAST k. \<not> P k)"
  have a: "\<not> P k0" unfolding k0_def using ex by (rule LeastI_ex)
  have b: "\<And>j. j < k0 \<Longrightarrow> P j" unfolding k0_def using not_less_Least by blast
  show ?thesis using a b by blast
qed

lemma stop_unique:
  fixes P :: "nat \<Rightarrow> bool"
  assumes "(\<forall>j<k. P j) \<and> \<not> P k" and "(\<forall>j<k'. P j) \<and> \<not> P k'"
  shows "k = k'"
proof (rule ccontr)
  assume "k \<noteq> k'"
  then consider "k < k'" | "k' < k" by linarith
  then show False
  proof cases
    case 1 then show ?thesis using assms by blast
  next
    case 2 then show ?thesis using assms by blast
  qed
qed


lemma wait_at_stop:
  assumes s: "clock_sleep C interval = None"
    and before: "\<forall>j<k. pending C head timeout interval n j"
    and stop: "\<not> pending C head timeout interval n k"
  shows "wait_for_file C head timeout interval n =
     (if \<not> clock_less C (elapsed_after C interval (clock_zero C) k) timeout
      then Some (Inr False, n + k)
      else case head (n + k) of
             Found \<Rightarrow> Some (Inr True, Suc (n + k))
           | NotFound \<Rightarrow> None
           | OtherClientError m \<Rightarrow> Some (Inl (ClientError m), Suc (n + k)))"
proof -
  have "wait_for_file C head timeout interval n =
        wait_loop C head timeout interval (elapsed_after C interval (clock_zero C) k) (n + k)"
    unfolding wait_for_file_def using before
    by (intro wait_loop_skip [OF s]) (simp add: pending_def)
  also have "\<dots> =
     (if \<not> clock_less C (elapsed_after C interval (clock_zero C) k) timeout
      then Some (Inr False, n + k)
      else case head (n + k) of
             Found \<Rightarrow> Some (Inr True, Suc (n + k))
           | NotFound \<Rightarrow> None
           | OtherClientError m \<Rightarrow> Some (Inl (ClientError m), Suc (n + k)))"
    using stop by (subst wait_loop.simps) (auto simp: pending_def split: probe.splits)
  finally show ?thesis .
qed

lemma wait_all_pending:
  assumes "clock_sleep C interval = None" and "\<forall>k. pending C head timeout interval n k"
  shows "wait_for_file C head timeout interval n = None"
  unfolding wait_for_file_def using assms(2)
  by (intro wait_loop_never [OF assms(1)]) (simp add: pending_def)

lemma wait_first_turn:
  "wait_for_file C head timeout interval n =
     (if clock_less C (clock_zero C) timeout then
        (case head n of
           Found \<Rightarrow> Some (Inr True, Suc n)
         | NotFound \<Rightarrow>
             (case clock_sleep C interval of
                Some e \<Rightarrow> Some (Inl e, Suc n)
              | None \<Rightarrow> wait_loop C head timeout interval
                          (clock_add C (clock_zero C) interval) (Suc n))
         | OtherClientError m \<Rightarrow> Some (Inl (ClientError m), Suc n))
      else Some (Inr False, n))"
  unfolding wait_for_file_def by (subst wait_loop.simps) simp

lemma wait_true_iff:
  assumes s: "clock_sleep C interval = None"
  shows "wait_for_file C head timeout interval n = Some (Inr True, c) \<longleftrightarrow>
     (\<exists>k. c = Suc (n + k) \<and> (\<forall>j<k. pending C head timeout interval n j) \<and>
          clock_less C (elapsed_after C interval (clock_zero C) k) timeout \<and> head (n + k) = Found)"
proof
  assume r: "wait_for_file C head timeout interval n = Some (Inr True, c)"
  have "\<not> (\<forall>k. pending C head timeout interval n k)"
    using wait_all_pending [OF s] r by fastforce
  then obtain k where b: "\<forall>j<k. pending C head timeout interval n j"
    and st: "\<not> pending C head timeout interval n k"
    using first_stop [of "pending C head timeout interval n"] by blast
  have "c = Suc (n + k) \<and> clock_less C (elapsed_after C interval (clock_zero C) k) timeout \<and>
        head (n + k) = Found"
    using wait_at_stop [OF s b st] r by (auto split: if_splits probe.splits)
  then show "\<exists>k. c = Suc (n + k) \<and> (\<forall>j<k. pending C head timeout interval n j) \<and>
          clock_less C (elapsed_after C interval (clock_zero C) k) timeout \<and> head (n + k) = Found"
    using b by blast
next
  assume "\<exists>k. c = Suc (n + k) \<and> (\<forall>j<k. pending C head timeout interval n j) \<and>
          clock_less C (elapsed_after C interval (clock_zero C) k) timeout \<and> head (n + k) = Found"
  then obtain k where c: "c = Suc (n + k)" and b: "\<forall>j<k. pending C head timeout interval n j"
    and l: "clock_less C (elapsed_after C interval (clock_zero C) k) timeout"
    and f: "head (n + k) = Found" by blast
  have st: "\<not> pending C head timeout interval n k" using f by (simp add: pending_def)
  show "wait_for_file C head timeout interval n = Some (Inr True, c)"
    using wait_at_stop [OF s b st] l f c by simp
qed

lemma wait_error_iff:
  assumes s: "clock_sleep C interval = None"
  shows "wait_for_file C head timeout interval n = Some (Inl x, c) \<longleftrightarrow>
     (\<exists>k m. x = ClientError m \<and> c = Suc (n + k) \<and> (\<forall>j<k. pending C head timeout interval n j) \<and>
          clock_less C (elapsed_after C interval (clock_zero C) k) timeout \<and>
          head (n + k) = OtherClientError m)"
proof
  assume r: "wait_for_file C head timeout interval n = Some (Inl x, c)"
  have "\<not> (\<forall>k. pending C head timeout interval n k)"
    using wait_all_pending [OF s] r by fastforce
  then obtain k where b: "\<forall>j<k. pending C head timeout interval n j"
    and st: "\<not> pending C head timeout interval n k"
    using first_stop [of "pending C head timeout interval n"] by blast
  have "\<exists>m. x = ClientError m \<and> c = Suc (n + k) \<and>
        clock_less C (elapsed_after C interval (clock_zero C) k) timeout \<and>
        head (n + k) = OtherClientError m"
    using wait_at_stop [OF s b st] r by (auto split: if_splits probe.splits)
  then show "\<exists>k m. x = ClientError m \<and> c = Suc (n + k) \<and> (\<forall>j<k. pending C head timeout interval n j) \<and>
          clock_less C (elapsed_after C interval (clock_zero C) k) timeout \<and>
          head (n + k) = OtherClientError m"
    using b by blast
next
  assume "\<exists>k m. x = ClientError m \<and> c = Suc (n + k) \<and> (\<forall>j<k. pending C head timeout interval n j) \<and>
          clock_less C (elapsed_after C interval (clock_zero C) k) timeout \<and>
          head (n + k) = OtherClientError m"
  then obtain k m where x: "x = ClientError m" and c: "c = Suc (n + k)"
    and b: "\<forall>j<k. pending C head timeout interval n j"
    and l: "clock_less C (elapsed_after C interval (clock_zero C) k) timeout"
    and f: "head (n + k) = OtherClientError m" by blast
  have st: "\<not> pending C head timeout interval n k" using f by (simp add: pending_def)
  show "wait_for_file C head timeout interval n = Some (Inl x, c)"
    using wait_at_stop [OF s b st] l f c x by simp
qed

lemma wait_false_iff:
  assumes s: "clock_sleep C interval = None"
  shows "wait_for_file C head timeout interval n = Some (Inr False, c) \<longleftrightarrow>
     (\<exists>k. c = n + k \<and> (\<forall>j<k. pending C head timeout interval n j) \<and>
          \<not> clock_less C (elapsed_after C interval (clock_zero C) k) timeout)"
proof
  assume r: "wait_for_file C head timeout interval n = Some (Inr False, c)"
  have "\<not> (\<forall>k. pending C head timeout interval n k)"
    using wait_all_pending [OF s] r by fastforce
  then obtain k where b: "\<forall>j<k. pending C head timeout interval n j"
    and st: "\<not> pending C head timeout interval n k"
    using first_stop [of "pending C head timeout interval n"] by blast
  have "c = n + k \<and> \<not> clock_less C (elapsed_after C interval (clock_zero C) k) timeout"
    using wait_at_stop [OF s b st] r by (auto split: if_splits probe.splits)
  then show "\<exists>k. c = n + k \<and> (\<forall>j<k. pending C head timeout interval n j) \<and>
          \<not> clock_less C (elapsed_after C interval (clock_zero C) k) timeout"
    using b by blast
next
  assume "\<exists>k. c = n + k \<and> (\<forall>j<k. pending C head timeout interval n j) \<and>
          \<not> clock_less C (elapsed_after C interval (clock_zero C) k) timeout"
  then obtain k where c: "c = n + k" and b: "\<forall>j<k. pending C head timeout interval n j"
    and l: "\<not> clock_less C (elapsed_after C interval (clock_zero C) k) timeout" by blast
  have st: "\<not> pending C head timeout interval n k" using l by (simp add: pending_def)
  show "wait_for_file C head timeout interval n = Some (Inr False, c)"
    using wait_at_stop [OF s b st] l c by simp
qed

lemma wait_none_iff:
  assumes s: "clock_sleep C interval = None"
  shows "wait_for_file C head timeout interval n = None \<longleftrightarrow>
     (\<forall>k. pending C head timeout interval n k)"
proof
  assume r: "wait_for_file C head timeout interval n = None"
  show "\<forall>k. pending C head timeout interval n k"
  proof (rule ccontr)
    assume "\<not> (\<forall>k. pending C head timeout interval n k)"
    then obtain k where b: "\<forall>j<k. pending C head timeout interval n j"
      and st: "\<not> pending C head timeout interval n k"
      using first_stop [of "pending C head timeout interval n"] by blast
    show False
      using wait_at_stop [OF s b st] r st by (auto simp: pending_def split: if_splits probe.splits)
  qed
next
  assume "\<forall>k. pending C head timeout interval n k"
  then show "wait_for_file C head timeout interval n = None" by (rule wait_all_pending [OF s])
qed


lemma wait_probes_once:
  assumes z: "clock_less C (clock_zero C) timeout"
    and r: "wait_for_file C head timeout interval n = Some (r, c)"
  shows "n < c"
proof (cases "clock_sleep C interval")
  case (Some e)
  then show ?thesis using wait_first_turn [of C head timeout interval n] z r
    by (auto split: probe.splits)
next
  case None
  show ?thesis
  proof (cases r)
    case (Inl x)
    then show ?thesis using wait_error_iff [OF None, of head timeout n x c] r by auto
  next
    case (Inr b)
    show ?thesis
    proof (cases b)
      case True
      then show ?thesis using wait_true_iff [OF None, of head timeout n c] r Inr by auto
    next
      case False
      then obtain k where c: "c = n + k"
        and l: "\<not> clock_less C (elapsed_after C interval (clock_zero C) k) timeout"
        using wait_false_iff [OF None, of head timeout n c] r Inr by auto
      have "k \<noteq> 0"
      proof
        assume "k = 0"
        then show False using l z by (simp add: elapsed_after_0)
      qed
      then show ?thesis using c by simp
    qed
  qed
qed

text \<open>
  Claim C3, as the code has it, for every kind of number. When \<open>0 < timeout\<close> is false,
  no probe is made and the result is \<open>False\<close>. When it is true, at least one probe is
  made before the function returns: a first probe that finds the object gives \<open>True\<close>, a
  first probe that fails with another client error raises it, and a first probe answered
  by 404 followed by a \<open>time.sleep(interval)\<close> that raises (a negative interval, one too
  large) raises that exception. When \<open>time.sleep(interval)\<close> does not raise, the function
  returns \<open>True\<close> exactly when some probe finds the object while the loop test still
  passes, every earlier probe having been answered by 404 with the loop test passing;
  it raises a client error exactly when such a probe fails with another client error; it
  returns \<open>False\<close>, without raising, exactly when the loop test fails after \<open>k\<close> probes
  that were all answered by 404; and it never returns exactly when every probe is
  answered by 404 and the loop test never fails.
\<close>

theorem wait_for_file_spec:
  "(\<not> clock_less C (clock_zero C) timeout \<longrightarrow>
      wait_for_file C head timeout interval n = Some (Inr False, n)) \<and>
   (clock_less C (clock_zero C) timeout \<longrightarrow>
      (\<forall>r c. wait_for_file C head timeout interval n = Some (r, c) \<longrightarrow> n < c) \<and>
      (head n = Found \<longrightarrow> wait_for_file C head timeout interval n = Some (Inr True, Suc n)) \<and>
      (\<forall>m. head n = OtherClientError m \<longrightarrow>
           wait_for_file C head timeout interval n = Some (Inl (ClientError m), Suc n)) \<and>
      (\<forall>e. head n = NotFound \<and> clock_sleep C interval = Some e \<longrightarrow>
           wait_for_file C head timeout interval n = Some (Inl e, Suc n))) \<and>
   (clock_sleep C interval = None \<longrightarrow>
      (\<forall>c. wait_for_file C head timeout interval n = Some (Inr True, c) \<longleftrightarrow>
           (\<exists>k. c = Suc (n + k) \<and> (\<forall>j<k. pending C head timeout interval n j) \<and>
                clock_less C (elapsed_after C interval (clock_zero C) k) timeout \<and>
                head (n + k) = Found)) \<and>
      (\<forall>x c. wait_for_file C head timeout interval n = Some (Inl x, c) \<longleftrightarrow>
           (\<exists>k m. x = ClientError m \<and> c = Suc (n + k) \<and>
                (\<forall>j<k. pending C head timeout interval n j) \<and>
                clock_less C (elapsed_after C interval (clock_zero C) k) timeout \<and>
                head (n + k) = OtherClientError m)) \<and>
      (\<forall>c. wait_for_file C head timeout interval n = Some (Inr False, c) \<longleftrightarrow>
           (\<exists>k. c = n + k \<and> (\<forall>j<k. pending C head timeout interval n j) \<and>
                \<not> clock_less C (elapsed_after C interval (clock_zero C) k) timeout)) \<and>
      (wait_for_file C head timeout interval n = None \<longleftrightarrow>
           (\<forall>k. pending C head timeout interval n k)))"
proof (intro conjI impI allI)
  assume "\<not> clock_less C (clock_zero C) timeout"
  then show "wait_for_file C head timeout interval n = Some (Inr False, n)"
    by (simp add: wait_first_turn)
next
  fix r c
  assume "clock_less C (clock_zero C) timeout"
    and "wait_for_file C head timeout interval n = Some (r, c)"
  then show "n < c" by (rule wait_probes_once)
next
  assume "clock_less C (clock_zero C) timeout" and "head n = Found"
  then show "wait_for_file C head timeout interval n = Some (Inr True, Suc n)"
    by (simp add: wait_first_turn)
next
  fix m
  assume "clock_less C (clock_zero C) timeout" and "head n = OtherClientError m"
  then show "wait_for_file C head timeout interval n = Some (Inl (ClientError m), Suc n)"
    by (simp add: wait_first_turn)
next
  fix e
  assume "clock_less C (clock_zero C) timeout"
    and "head n = NotFound \<and> clock_sleep C interval = Some e"
  then show "wait_for_file C head timeout interval n = Some (Inl e, Suc n)"
    by (simp add: wait_first_turn)
next
  fix c
  assume "clock_sleep C interval = None"
  then show "wait_for_file C head timeout interval n = Some (Inr True, c) \<longleftrightarrow>
           (\<exists>k. c = Suc (n + k) \<and> (\<forall>j<k. pending C head timeout interval n j) \<and>
                clock_less C (elapsed_after C interval (clock_zero C) k) timeout \<and>
                head (n + k) = Found)"
    by (rule wait_true_iff)
next
  fix x c
  assume "clock_sleep C interval = None"
  then show "wait_for_file C head timeout interval n = Some (Inl x, c) \<longleftrightarrow>
           (\<exists>k m. x = ClientError m \<and> c = Suc (n + k) \<and>
                (\<forall>j<k. pending C head timeout interval n j) \<and>
                clock_less C (elapsed_after C interval (clock_zero C) k) timeout \<and>
                head (n + k) = OtherClientError m)"
    by (rule wait_error_iff)
next
  fix c
  assume "clock_sleep C interval = None"
  then show "wait_for_file C head timeout interval n = Some (Inr False, c) \<longleftrightarrow>
           (\<exists>k. c = n + k \<and> (\<forall>j<k. pending C head timeout interval n j) \<and>
                \<not> clock_less C (elapsed_after C interval (clock_zero C) k) timeout)"
    by (rule wait_false_iff)
next
  assume "clock_sleep C interval = None"
  then show "wait_for_file C head timeout interval n = None \<longleftrightarrow>
           (\<forall>k. pending C head timeout interval n k)"
    by (rule wait_none_iff)
qed


lemma elapsed_after_python_int:
  "elapsed_after python_int interval e k = e + int k * interval"
  by (induction k arbitrary: e) (simp_all add: elapsed_after_0 elapsed_after_Suc python_int_def algebra_simps)

lemma pending_python_int:
  "pending python_int head timeout interval n k \<longleftrightarrow>
     int k * interval < timeout \<and> head (n + k) = NotFound"
  by (simp add: pending_def elapsed_after_python_int) (simp add: python_int_def)

theorem wait_for_file_spec_witness:
  "wait_for_file python_int (\<lambda>k. NotFound) 0 5 0 = Some (Inr False, 0) \<and>
   wait_for_file python_int (\<lambda>k. if k = 1 then Found else NotFound) 10 5 0 = Some (Inr True, 2) \<and>
   wait_for_file python_int (\<lambda>k. NotFound) 10 5 0 = Some (Inr False, 2) \<and>
   wait_for_file python_int (\<lambda>k. NotFound) 10 (- 1) 0 =
     Some (Inl (ValueError ''sleep length must be non-negative''), 1) \<and>
   wait_for_file python_int (\<lambda>k. NotFound) 10 10000000000 0 =
     Some (Inl (OverflowError ''timestamp too large to convert to C _PyTime_t''), 1) \<and>
   wait_for_file python_int (\<lambda>k. NotFound) 10 0 0 = None"
proof -
  have z0: "\<not> clock_less python_int (clock_zero python_int) 0"
    and z10: "clock_less python_int (clock_zero python_int) 10"
    and s5: "clock_sleep python_int 5 = None"
    and s0: "clock_sleep python_int 0 = None"
    and sm: "clock_sleep python_int (- 1) = Some (ValueError ''sleep length must be non-negative'')"
    and sb: "clock_sleep python_int 10000000000 =
               Some (OverflowError ''timestamp too large to convert to C _PyTime_t'')"
    by (simp_all add: python_int_def)
  have a: "wait_for_file python_int (\<lambda>k. NotFound) 0 5 0 = Some (Inr False, 0)"
    using wait_for_file_spec [of python_int 0 "\<lambda>k. NotFound" 5 0] z0 by blast
  have b1: "\<forall>j<1. pending python_int (\<lambda>k. if k = 1 then Found else NotFound) 10 5 0 j"
    by (simp add: pending_python_int)
  have b2: "clock_less python_int (elapsed_after python_int 5 (clock_zero python_int) 1) 10"
    by (simp add: elapsed_after_python_int) (simp add: python_int_def)
  have b: "wait_for_file python_int (\<lambda>k. if k = 1 then Found else NotFound) 10 5 0 = Some (Inr True, 2)"
  proof -
    have "\<exists>k. (2::nat) = Suc (0 + k) \<and>
            (\<forall>j<k. pending python_int (\<lambda>k. if k = 1 then Found else NotFound) 10 5 0 j) \<and>
            clock_less python_int (elapsed_after python_int 5 (clock_zero python_int) k) 10 \<and>
            (if 0 + k = 1 then Found else NotFound) = Found"
      using b1 b2 by (intro exI [of _ 1]) simp
    then show ?thesis
      using wait_for_file_spec [of python_int 10 "\<lambda>k. if k = 1 then Found else NotFound" 5 0] s5
      by blast
  qed
  have c: "wait_for_file python_int (\<lambda>k. NotFound) 10 5 0 = Some (Inr False, 2)"
  proof -
    have "\<forall>j<2. pending python_int (\<lambda>k. NotFound) 10 5 0 j"
    proof (intro allI impI)
      fix j :: nat assume "j < 2"
      then have "int j * 5 < 10" by simp
      then show "pending python_int (\<lambda>k. NotFound) 10 5 0 j" by (simp add: pending_python_int)
    qed
    moreover have "\<not> clock_less python_int (elapsed_after python_int 5 (clock_zero python_int) 2) 10"
      by (simp add: elapsed_after_python_int) (simp add: python_int_def)
    ultimately have "\<exists>k. (2::nat) = 0 + k \<and> (\<forall>j<k. pending python_int (\<lambda>k. NotFound) 10 5 0 j) \<and>
            \<not> clock_less python_int (elapsed_after python_int 5 (clock_zero python_int) k) 10"
      by (intro exI [of _ 2]) simp
    then show ?thesis
      using wait_for_file_spec [of python_int 10 "\<lambda>k. NotFound" 5 0] s5 by blast
  qed
  have d: "wait_for_file python_int (\<lambda>k. NotFound) 10 (- 1) 0 =
     Some (Inl (ValueError ''sleep length must be non-negative''), 1)"
    using wait_for_file_spec [of python_int 10 "\<lambda>k. NotFound" "- 1" 0] z10 sm by simp
  have e: "wait_for_file python_int (\<lambda>k. NotFound) 10 10000000000 0 =
     Some (Inl (OverflowError ''timestamp too large to convert to C _PyTime_t''), 1)"
    using wait_for_file_spec [of python_int 10 "\<lambda>k. NotFound" 10000000000 0] z10 sb by simp
  have f: "wait_for_file python_int (\<lambda>k. NotFound) 10 0 0 = None"
  proof -
    have "\<forall>k. pending python_int (\<lambda>k. NotFound) 10 0 0 k" by (simp add: pending_python_int)
    then show ?thesis
      using wait_for_file_spec [of python_int 10 "\<lambda>k. NotFound" 0 0] s0 by blast
  qed
  show ?thesis using a b c d e f by blast
qed

text \<open>
  Claim C3 as stated fails for the smallest timeout: with a timeout of 0 the loop body is
  never entered, so no probe is made (the call counter stays 0) and the result is \<open>False\<close>
  although the object is there.
\<close>

theorem wait_zero_timeout_no_probe:
  "wait_for_file python_int (\<lambda>n. Found) 0 5 0 = Some (Inr False, 0)"
  by (simp add: wait_first_turn python_int_def)

section \<open>Running the handler\<close>

lemma str_int_42: "str_int 42 = ''42''"
  by code_simp

lemma str_int_2: "str_int 2 = ''2''"
  by code_simp

lemma str_int_0: "str_int 0 = ''0''"
  by code_simp

lemma wait_default:
  "wait_for_file python_int h 10 5 n =
     Some (case h n of
             Found \<Rightarrow> (Inr True, Suc n)
           | OtherClientError m \<Rightarrow> (Inl (ClientError m), Suc n)
           | NotFound \<Rightarrow>
               (case h (Suc n) of
                  Found \<Rightarrow> (Inr True, Suc (Suc n))
                | OtherClientError m \<Rightarrow> (Inl (ClientError m), Suc (Suc n))
                | NotFound \<Rightarrow> (Inr False, Suc (Suc n))))"
  unfolding wait_for_file_def
  apply (subst wait_loop.simps)
  apply (subst wait_loop.simps)
  apply (subst wait_loop.simps)
  apply (simp add: python_int_def split: probe.splits)
  done

lemma notify_eq:
  "notify_system_api E song_id stage action file_name err_msg w =
     Some (Inr (), w\<lparr>events := events w @
       [\<lparr>ev_songID = song_id, ev_stage = stage, ev_action = action,
         ev_fileName = file_name, ev_errMsg = err_msg\<rparr>]\<rparr>)"
  by (simp add: notify_system_api_def Let_def split: option.splits)

lemmas run_defs =
  lambda_handler_def try_block_def except_clause_def handle_record_def body_get_def job_steps_def
  stage_and_process_def seq_def ok_def throw_def initialize_s3_paths_def get_dynamic_s3_paths_def
  notify_eq wait_for_file_default_def wait_default download_file_from_s3_def
  process_files_def mix_tracks_def from_wav_def upload_file_to_s3_def
  cleanup_def remove_temporary_def LOCAL_REFERENCE_PATH_def LOCAL_INSTRUMENTAL_PATH_def
  LOCAL_FINAL_FILE_def LOCAL_VOCALS_PATH_def local_final_file_def local_vocals_path_def
  lambda_vocals_path_def final_name_def LAMBDA_STATIC_REFERENCE_WAV_PATH_def Let_def
  all_present_def fresh_world_def job_42_def str_int_42 str_int_2 str_int_0

text \<open>
  Claim C1 at a concrete Job: the Job of the end-to-end scenario, with every asset present
  and every external call succeeding. The handler returns after \<open>start\<close> and \<open>end\<close>;
  the \<open>finally\<close> block goes through \<open>LOCAL_VOCALS_PATH\<close> and \<open>LOCAL_FINAL_FILE\<close>,
  which are still \<open>None\<close> (the handler wrote its paths to the local variables
  \<open>local_vocals_path\<close> and \<open>local_final_file\<close>), so the vocals file and the final file
  of the Job are still there afterwards; only the reference and the instrumental are deleted.
\<close>

theorem vocals_and_final_file_survive_cleanup:
  "(case lambda_handler all_present (Some [Body job_42]) fresh_world of
      None \<Rightarrow> False
    | Some (r, w') \<Rightarrow>
        r = Inr () \<and>
        map ev_action (events w') = [''start'', ''end''] \<and>
        files w' (local_vocals_path (JInt 42)) = Some (Wav [1, 2]) \<and>
        files w' (local_final_file (JInt 42)) = Some (Wav [11, 22, 30]) \<and>
        files w' LOCAL_REFERENCE_PATH = None \<and>
        files w' LOCAL_INSTRUMENTAL_PATH = None)"
  by (simp add: run_defs)

text \<open>
  Claim C9: a Job whose \<open>trackID\<close> is falsy (absent, \<open>null\<close>, 0, \<open>false\<close> or the empty
  string) fails with \<open>ValueError('Region or track ID is missing.')\<close> and leaves the world
  as it was: the catalog is not consulted and the global path is not set. The error is not
  the one the catalog lookup raises for an unmapped \<open>trackID\<close>. The handler answers it
  with one \<open>error\<close> event carrying that message.
\<close>

theorem falsy_track_id_is_missing:
  assumes "\<not> truthy (body_get b ''trackID'')"
  shows "handle_record E (Body b) s w =
           Some (Inl (ValueError ''Region or track ID is missing.''), body_get b ''songID'', w) \<and>
         get_dynamic_s3_paths (body_get b ''trackID'') \<noteq> Inl (ValueError ''Region or track ID is missing.'') \<and>
         lambda_handler E (Some [Body b]) w =
           Some (Inr (), cleanup E
             (w\<lparr>log := log w @ [LogError ''Error in lambda_handler: Region or track ID is missing.''],
                events := events w @
                  [\<lparr>ev_songID = body_get b ''songID'', ev_stage = ''matchering'', ev_action = ''error'',
                    ev_fileName = None, ev_errMsg = Some ''Region or track ID is missing.''\<rparr>]\<rparr>))"
proof -
  have a: "handle_record E (Body b) s' w =
           Some (Inl (ValueError ''Region or track ID is missing.''), body_get b ''songID'', w)" for s'
    using assms by (simp add: handle_record_def job_steps_def throw_def)
  have b: "get_dynamic_s3_paths (body_get b ''trackID'') \<noteq> Inl (ValueError ''Region or track ID is missing.'')"
    by (simp add: get_dynamic_s3_paths_def split: option.splits)
  have c: "lambda_handler E (Some [Body b]) w =
           Some (Inr (), cleanup E
             (w\<lparr>log := log w @ [LogError ''Error in lambda_handler: Region or track ID is missing.''],
                events := events w @
                  [\<lparr>ev_songID = body_get b ''songID'', ev_stage = ''matchering'', ev_action = ''error'',
                    ev_fileName = None, ev_errMsg = Some ''Region or track ID is missing.''\<rparr>]\<rparr>))"
    by (simp add: a lambda_handler_def try_block_def except_clause_def notify_eq)
  show ?thesis using a b c by blast
qed

theorem falsy_track_id_is_missing_witness:
  "\<not> truthy (body_get [''songID'' \<mapsto> JInt 42, ''fileName'' \<mapsto> JStr ''v42.wav'', ''trackID'' \<mapsto> JInt 0] ''trackID'') \<and>
   handle_record all_present
     (Body [''songID'' \<mapsto> JInt 42, ''fileName'' \<mapsto> JStr ''v42.wav'', ''trackID'' \<mapsto> JInt 0])
     (JInt 0) fresh_world =
     Some (Inl (ValueError ''Region or track ID is missing.''), JInt 42, fresh_world)"
proof -
  have h: "\<not> truthy (body_get [''songID'' \<mapsto> JInt 42, ''fileName'' \<mapsto> JStr ''v42.wav'', ''trackID'' \<mapsto> JInt 0] ''trackID'')"
    by (simp add: body_get_def)
  show ?thesis
    using falsy_track_id_is_missing [OF h, of all_present "JInt 0" fresh_world] h
    by (simp add: body_get_def)
qed


section \<open>Local paths\<close>

lemma digit_char_inj: "d < 10 \<Longrightarrow> d' < 10 \<Longrightarrow> digit_char d = digit_char d' \<Longrightarrow> d = d'"
proof -
  assume d: "d < 10" "d' < 10" and e: "digit_char d = digit_char d'"
  have "(of_char (digit_char d) :: nat) = of_char (digit_char d')" using e by simp
  then have "(48 + d) mod 256 = (48 + d') mod 256" by (simp add: digit_char_def)
  then show "d = d'" using d by simp
qed

lemma str_nat_not_Nil: "str_nat n \<noteq> []"
  by (subst str_nat.simps) simp

lemma str_nat_inj: "str_nat n = str_nat m \<Longrightarrow> n = m"
proof (induction n arbitrary: m rule: str_nat.induct)
  case (1 n)
  show ?case
  proof (cases "n < 10")
    case True
    then have sn: "str_nat n = [digit_char n]" by (subst str_nat.simps) simp
    show ?thesis
    proof (cases "m < 10")
      case m: True
      then have "str_nat m = [digit_char m]" by (subst str_nat.simps) simp
      then show ?thesis using sn "1.prems" True m digit_char_inj by simp
    next
      case m: False
      then have "str_nat m = str_nat (m div 10) @ [digit_char (m mod 10)]"
        by (subst str_nat.simps) simp
      then show ?thesis using sn "1.prems" str_nat_not_Nil [of "m div 10"] by simp
    qed
  next
    case False
    then have sn: "str_nat n = str_nat (n div 10) @ [digit_char (n mod 10)]"
      by (subst str_nat.simps) simp
    show ?thesis
    proof (cases "m < 10")
      case m: True
      then have "str_nat m = [digit_char m]" by (subst str_nat.simps) simp
      then show ?thesis using sn "1.prems" str_nat_not_Nil [of "n div 10"] by simp
    next
      case m: False
      then have "str_nat m = str_nat (m div 10) @ [digit_char (m mod 10)]"
        by (subst str_nat.simps) simp
      then have e: "str_nat (n div 10) = str_nat (m div 10)"
        and d: "digit_char (n mod 10) = digit_char (m mod 10)"
        using sn "1.prems" by simp_all
      have q: "n div 10 = m div 10" using "1.IH" [OF False e] .
      have r: "n mod 10 = m mod 10" using digit_char_inj [OF _ _ d] by simp
      show ?thesis using q r by (metis div_mult_mod_eq)
    qed
  qed
qed

lemma str_nat_hd_not_minus: "hd (str_nat n) \<noteq> CHR ''-''"
proof (induction n rule: str_nat.induct)
  case (1 n)
  show ?case
  proof (cases "n < 10")
    case True
    then have sn: "str_nat n = [digit_char n]" by (subst str_nat.simps) simp
    have o: "(of_char (digit_char n) :: nat) = 48 + n" using True by (simp add: digit_char_def)
    have "digit_char n \<noteq> CHR ''-''"
    proof
      assume "digit_char n = CHR ''-''"
      then have "(of_char (digit_char n) :: nat) = of_char (CHR ''-'')" by simp
      then show False using o by simp
    qed
    then show ?thesis using sn by simp
  next
    case False
    then have sn: "str_nat n = str_nat (n div 10) @ [digit_char (n mod 10)]"
      by (subst str_nat.simps) simp
    then show ?thesis using "1.IH" [OF False] str_nat_not_Nil [of "n div 10"] by simp
  qed
qed

lemma str_int_inj: "str_int a = str_int b \<Longrightarrow> a = b"
proof -
  assume e: "str_int a = str_int b"
  have neg_pos: "CHR ''-'' # str_nat x \<noteq> str_nat y" for x y
    using str_nat_hd_not_minus [of y] by (metis list.sel(1))
  show "a = b"
  proof (cases "a < 0")
    case True
    show ?thesis
    proof (cases "b < 0")
      case b: True
      then have "str_nat (nat (- a)) = str_nat (nat (- b))" using e True by (simp add: str_int_def)
      then have "nat (- a) = nat (- b)" by (rule str_nat_inj)
      then show ?thesis using True b by simp
    next
      case b: False
      then show ?thesis using e True neg_pos [of "nat (- a)" "nat b"] by (simp add: str_int_def)
    qed
  next
    case False
    show ?thesis
    proof (cases "b < 0")
      case b: True
      then show ?thesis using e False neg_pos [of "nat (- b)" "nat a"] by (simp add: str_int_def)
    next
      case b: False
      then have "str_nat (nat a) = str_nat (nat b)" using e False by (simp add: str_int_def)
      then have "nat a = nat b" by (rule str_nat_inj)
      then show ?thesis using False b by simp
    qed
  qed
qed

text \<open>
  Claim C8, as the code has it. The vocals path and the final-output path carry the
  \<open>songID\<close>: for two integer \<open>songID\<close>s that differ, neither path of the one Job is a
  path of the other. The reference path and the instrumental path are the constants
  \<open>/tmp/reference.wav\<close> and \<open>/tmp/instrumental.wav\<close>, the same for every Job.
\<close>

theorem song_paths_keyed_by_song_id:
  assumes "a \<noteq> b"
  shows "local_vocals_path (JInt a) \<noteq> local_vocals_path (JInt b) \<and>
         local_final_file (JInt a) \<noteq> local_final_file (JInt b) \<and>
         local_vocals_path (JInt a) \<noteq> local_final_file (JInt b) \<and>
         set (staging_paths (JInt a)) \<inter> set (staging_paths (JInt b)) =
           {LOCAL_REFERENCE_PATH, LOCAL_INSTRUMENTAL_PATH}"
proof -
  have n: "str_int a \<noteq> str_int b" using assms str_int_inj by blast
  have v: "local_vocals_path (JInt a) \<noteq> local_vocals_path (JInt b)"
    using n by (simp add: local_vocals_path_def)
  have f: "local_final_file (JInt a) \<noteq> local_final_file (JInt b)"
    using n by (simp add: local_final_file_def)
  have x: "local_vocals_path (JInt c) \<noteq> local_final_file (JInt d)" for c d
    by (simp add: local_vocals_path_def local_final_file_def)
  have r: "local_vocals_path (JInt c) \<noteq> LOCAL_REFERENCE_PATH"
          "local_vocals_path (JInt c) \<noteq> LOCAL_INSTRUMENTAL_PATH"
          "local_final_file (JInt c) \<noteq> LOCAL_REFERENCE_PATH"
          "local_final_file (JInt c) \<noteq> LOCAL_INSTRUMENTAL_PATH" for c
    by (simp_all add: local_vocals_path_def local_final_file_def LOCAL_REFERENCE_PATH_def
        LOCAL_INSTRUMENTAL_PATH_def)
  have s: "set (staging_paths (JInt a)) \<inter> set (staging_paths (JInt b)) =
           {LOCAL_REFERENCE_PATH, LOCAL_INSTRUMENTAL_PATH}"
    using v f x [of a b] x [of b a] r [of a] r [of b] by (auto simp: staging_paths_def)
  show ?thesis using v f x [of a b] s by blast
qed

theorem song_paths_keyed_by_song_id_witness:
  "(1::int) \<noteq> 2 \<and> local_vocals_path (JInt 1) \<noteq> local_vocals_path (JInt 2) \<and>
   local_final_file (JInt 1) \<noteq> local_final_file (JInt 2)"
proof -
  have h: "(1::int) \<noteq> 2" by simp
  show ?thesis using song_paths_keyed_by_song_id [OF h] h by blast
qed

text \<open>
  Claim C8 as stated fails for the reference and the instrumental: the Jobs with \<open>songID\<close>
  1 and 2 stage both at the same two local paths.
\<close>

theorem reference_path_shared_between_jobs:
  "JInt 1 \<noteq> JInt 2 \<and> staging_paths (JInt 1) ! 0 = staging_paths (JInt 2) ! 0 \<and>
   staging_paths (JInt 1) ! 1 = staging_paths (JInt 2) ! 1 \<and>
   staging_paths (JInt 1) ! 0 = ''/tmp/reference.wav'' \<and>
   staging_paths (JInt 1) ! 1 = ''/tmp/instrumental.wav''"
  by (simp add: staging_paths_def LOCAL_REFERENCE_PATH_def LOCAL_INSTRUMENTAL_PATH_def)


section \<open>Every step returns\<close>

lemma emits_weaken: "emits k m a b \<Longrightarrow> emits 0 m a b"
  unfolding emits_def by (metis add_0_right add_leD1)

lemma emits_throw: "emits 0 (throw e) [] b"
  by (simp add: emits_def throw_def)

lemma emits_if: "emits k m1 a b \<Longrightarrow> emits k m2 a b \<Longrightarrow> emits k (if c then m1 else m2) a b"
  by simp

lemma emits_wait: "emits 1 (wait_for_file_default E key) [] []"
  by (simp add: emits_def wait_for_file_default_def wait_default split: probe.splits)

lemma emits_wait0: "emits 0 (wait_for_file_default E key) [] []"
  by (rule emits_weaken [OF emits_wait])

lemma emits_download: "emits 0 (download_file_from_s3 E key p) [] []"
  by (simp add: emits_def download_file_from_s3_def split: sum.splits)

lemma emits_process: "emits 0 (process_files E v i out r) [] []"
  by (simp add: emits_def process_files_def split: sum.splits option.splits)

lemma emits_upload: "emits 0 (upload_file_to_s3 E f key) [] []"
  by (simp add: emits_def upload_file_to_s3_def split: option.splits)

lemma emits_notify: "emits 0 (notify_system_api E song_id stage action file_name err_msg) a
   [\<lparr>ev_songID = song_id, ev_stage = stage, ev_action = action,
         ev_fileName = file_name, ev_errMsg = err_msg\<rparr>]"
  by (simp add: emits_def notify_eq)

lemma emits_seq_quiet:
  assumes "emits k m [] []" and "\<And>x. emits 0 (f x) [] b"
  shows "emits k (seq m f) [] b"
  unfolding emits_def
proof
  fix w :: world
  obtain r w1 where m: "m w = Some (r, w1)" and h: "head_calls w + k \<le> head_calls w1"
    and e: "events w1 = events w" using assms(1) unfolding emits_def by (metis append_Nil2 sum.case_eq_if)
  show "\<exists>r w'. seq m f w = Some (r, w') \<and> head_calls w + k \<le> head_calls w' \<and>
          events w' = events w @ (case r of Inl e \<Rightarrow> [] | Inr x \<Rightarrow> b)"
  proof (cases r)
    case (Inl err)
    then show ?thesis using m h e by (simp add: seq_def)
  next
    case (Inr x)
    obtain r2 w2 where f: "f x w1 = Some (r2, w2)" and h2: "head_calls w1 \<le> head_calls w2"
      and e2: "events w2 = events w1 @ (case r2 of Inl e \<Rightarrow> [] | Inr x \<Rightarrow> b)"
      using assms(2) [of x] unfolding emits_def by (metis add_0_right)
    have "seq m f w = Some (r2, w2)" using m Inr f by (simp add: seq_def)
    then show ?thesis using h h2 e e2 by simp
  qed
qed

lemma emits_notify_seq:
  assumes "\<And>x. emits k (f x) a b"
  shows "emits k (seq (notify_system_api E song_id stage action file_name err_msg) f)
           (\<lparr>ev_songID = song_id, ev_stage = stage, ev_action = action,
              ev_fileName = file_name, ev_errMsg = err_msg\<rparr> # a)
           (\<lparr>ev_songID = song_id, ev_stage = stage, ev_action = action,
              ev_fileName = file_name, ev_errMsg = err_msg\<rparr> # b)"
  unfolding emits_def
proof
  fix w :: world
  let ?ev = "\<lparr>ev_songID = song_id, ev_stage = stage, ev_action = action,
              ev_fileName = file_name, ev_errMsg = err_msg\<rparr>"
  let ?w1 = "w\<lparr>events := events w @ [?ev]\<rparr>"
  obtain r2 w2 where f: "f () ?w1 = Some (r2, w2)" and h2: "head_calls ?w1 + k \<le> head_calls w2"
      and e2: "events w2 = events ?w1 @ (case r2 of Inl e \<Rightarrow> a | Inr x \<Rightarrow> b)"
    using assms [of "()"] unfolding emits_def by blast
  have s: "seq (notify_system_api E song_id stage action file_name err_msg) f w = Some (r2, w2)"
    using f by (simp add: seq_def notify_eq)
  have "events w2 = events w @ (case r2 of Inl e \<Rightarrow> ?ev # a | Inr x \<Rightarrow> ?ev # b)"
    using e2 by (cases r2) simp_all
  then show "\<exists>r w'. seq (notify_system_api E song_id stage action file_name err_msg) f w = Some (r, w') \<and>
      head_calls w + k \<le> head_calls w' \<and>
      events w' = events w @ (case r of Inl e \<Rightarrow> ?ev # a | Inr x \<Rightarrow> ?ev # b)"
    using s h2 by simp
qed

lemma emits_stage_and_process:
  "emits 1 (stage_and_process E song_id file_name track_id path)
     [start_event song_id] [start_event song_id, end_event song_id track_id]"
  unfolding stage_and_process_def start_event_def end_event_def
  by (intro emits_notify_seq emits_seq_quiet emits_wait emits_wait0 emits_if emits_download
      emits_throw emits_process emits_upload emits_notify)


section \<open>One Job\<close>

lemma catalog_nonempty:
  "TRACK_FILENAMES t = Some f \<Longrightarrow> f \<noteq> [] \<and> truthy t \<and> unhashable t = None"
  by (cases t) (auto split: if_splits)

lemma job_steps_unmapped:
  "TRACK_FILENAMES track_id = None \<Longrightarrow>
   job_steps E song_id file_name track_id w =
     Some (Inl (if \<not> truthy track_id then ValueError ''Region or track ID is missing.''
                else case unhashable track_id of
                       Some type_name \<Rightarrow> TypeError (''unhashable type: '' @ repr_str type_name)
                     | None \<Rightarrow> ValueError (''Invalid trackID: '' @ py_str track_id)), w)"
  by (simp add: job_steps_def throw_def seq_def initialize_s3_paths_def get_dynamic_s3_paths_def
      split: option.splits)

lemma job_steps_mapped:
  "TRACK_FILENAMES track_id = Some f \<Longrightarrow>
   job_steps E song_id file_name track_id w =
     stage_and_process E song_id file_name track_id (''static/audio/'' @ f)
       (w\<lparr>instrumental_wav_path := Some (''static/audio/'' @ f)\<rparr>)"
  using catalog_nonempty [of track_id f]
  by (simp add: job_steps_def seq_def ok_def initialize_s3_paths_def get_dynamic_s3_paths_def)

lemma job_steps_returns:
  "\<exists>r w'. job_steps E song_id file_name track_id w = Some (r, w') \<and>
     head_calls w \<le> head_calls w' \<and>
     (TRACK_FILENAMES track_id \<noteq> None \<longrightarrow> head_calls w < head_calls w') \<and>
     events w' = events w @
       (case r of
          Inl e \<Rightarrow> if TRACK_FILENAMES track_id = None then [] else [start_event song_id]
        | Inr x \<Rightarrow> [start_event song_id, end_event song_id track_id])"
proof (cases "TRACK_FILENAMES track_id")
  case None
  then show ?thesis using job_steps_unmapped [OF None, of E song_id file_name w] by simp
next
  case (Some f)
  let ?w0 = "w\<lparr>instrumental_wav_path := Some (''static/audio/'' @ f)\<rparr>"
  obtain r w' where s: "stage_and_process E song_id file_name track_id (''static/audio/'' @ f) ?w0 = Some (r, w')"
    and h: "head_calls ?w0 + 1 \<le> head_calls w'"
    and e: "events w' = events ?w0 @ (case r of Inl e \<Rightarrow> [start_event song_id]
              | Inr x \<Rightarrow> [start_event song_id, end_event song_id track_id])"
    using emits_stage_and_process [of E song_id file_name track_id "''static/audio/'' @ f"]
    unfolding emits_def by blast
  have j: "job_steps E song_id file_name track_id w = Some (r, w')"
    using job_steps_mapped [OF Some, of E song_id file_name w] s by simp
  have e': "events w' = events w @
       (case r of
          Inl e \<Rightarrow> if TRACK_FILENAMES track_id = None then [] else [start_event song_id]
        | Inr x \<Rightarrow> [start_event song_id, end_event song_id track_id])"
    using e Some by (cases r) simp_all
  show ?thesis using j h e' by auto
qed

lemma remove_temporary_frame:
  "events (remove_temporary E w p) = events w \<and> head_calls (remove_temporary E w p) = head_calls w \<and>
   uploads (remove_temporary E w p) = uploads w \<and>
   (\<forall>q. files (remove_temporary E w p) q \<noteq> None \<longrightarrow> files (remove_temporary E w p) q = files w q)"
  by (simp add: remove_temporary_def split: option.splits)

lemma cleanup_frame:
  "events (cleanup E w) = events w \<and> head_calls (cleanup E w) = head_calls w \<and>
   uploads (cleanup E w) = uploads w \<and>
   (\<forall>q. files (cleanup E w) q \<noteq> None \<longrightarrow> files (cleanup E w) q = files w q)"
  unfolding cleanup_def LOCAL_VOCALS_PATH_def LOCAL_FINAL_FILE_def
  using remove_temporary_frame [of E w "Some LOCAL_REFERENCE_PATH"]
    remove_temporary_frame [of E "remove_temporary E w (Some LOCAL_REFERENCE_PATH)" "Some LOCAL_INSTRUMENTAL_PATH"]
  by (simp add: remove_temporary_def [of E w None])

lemma handler_after_try:
  "try_block E event w = Some (res, song_id, w1) \<Longrightarrow>
   lambda_handler E event w =
     Some (Inr (), cleanup E
       (case res of
          Inr u \<Rightarrow> w1
        | Inl e \<Rightarrow> w1\<lparr>log := log w1 @ [LogError (''Error in lambda_handler: '' @ err_str e)],
                      events := events w1 @ [error_event song_id (err_str e)]\<rparr>))"
  by (cases res) (simp_all add: lambda_handler_def except_clause_def notify_eq error_event_def)

lemma try_single:
  "job_steps E (body_get b ''songID'') (body_get b ''fileName'') (body_get b ''trackID'') w = Some (r, w1) \<Longrightarrow>
   try_block E (Some [Body b]) w = Some (r, body_get b ''songID'', w1)"
  by (cases r) (simp_all add: try_block_def handle_record_def)

section \<open>When a Job succeeds\<close>

lemma seq_Inr:
  "seq m f w = Some (Inr y, w'') \<longleftrightarrow> (\<exists>x w'. m w = Some (Inr x, w') \<and> f x w' = Some (Inr y, w''))"
  by (auto simp: seq_def split: option.splits sum.splits)

lemma wait_found_by:
  "wait_for_file_default E key w = Some (Inr True, w') \<longleftrightarrow>
     (\<exists>n. found_by E key (head_calls w) = Some n \<and> w' = w\<lparr>head_calls := n\<rparr>)"
  by (auto simp: wait_for_file_default_def wait_default found_by_def split: probe.splits)

lemma wait_then_download:
  "seq (wait_for_file_default E key) (\<lambda>available.
     seq (if available then download_file_from_s3 E key p else throw e) f) w = Some (Inr y, w'') \<longleftrightarrow>
   (\<exists>n c. found_by E key (head_calls w) = Some n \<and> download_file E key = Inr c \<and>
      f () (w\<lparr>head_calls := n, files := (files w)(p \<mapsto> c)\<rparr>) = Some (Inr y, w''))"
  (is "?l \<longleftrightarrow> ?r")
proof
  assume ?l
  then obtain a w1 where a: "wait_for_file_default E key w = Some (Inr a, w1)"
    and b: "seq (if a then download_file_from_s3 E key p else throw e) f w1 = Some (Inr y, w'')"
    unfolding seq_Inr [of "wait_for_file_default E key"] by blast
  have t: "a" using b by (cases a) (simp_all add: seq_def throw_def)
  then have "wait_for_file_default E key w = Some (Inr True, w1)" using a by simp
  then obtain n where n: "found_by E key (head_calls w) = Some n" and w1: "w1 = w\<lparr>head_calls := n\<rparr>"
    unfolding wait_found_by by blast
  obtain u w2 where d: "download_file_from_s3 E key p w1 = Some (Inr u, w2)"
    and f: "f u w2 = Some (Inr y, w'')"
    using b t unfolding seq_Inr by auto
  obtain c where c: "download_file E key = Inr c" and w2: "w2 = w1\<lparr>files := (files w1)(p \<mapsto> c)\<rparr>"
    using d by (auto simp: download_file_from_s3_def split: sum.splits)
  show ?r using n c f w1 w2 by auto
next
  assume ?r
  then obtain n c where n: "found_by E key (head_calls w) = Some n" and c: "download_file E key = Inr c"
    and f: "f () (w\<lparr>head_calls := n, files := (files w)(p \<mapsto> c)\<rparr>) = Some (Inr y, w'')" by blast
  have a: "wait_for_file_default E key w = Some (Inr True, w\<lparr>head_calls := n\<rparr>)"
    using n wait_found_by by blast
  have d: "download_file_from_s3 E key p (w\<lparr>head_calls := n\<rparr>) =
           Some (Inr (), w\<lparr>head_calls := n, files := (files w)(p \<mapsto> c)\<rparr>)"
    using c by (simp add: download_file_from_s3_def)
  show ?l using a d f by (simp add: seq_def)
qed

lemma process_then_upload:
  "seq (process_files E v i out r) (\<lambda>_. seq (upload_file_to_s3 E out key) f) w = Some (Inr y, w'') \<longleftrightarrow>
   (\<exists>mixed c. mix_tracks (pydub E) (files w) v i = Some mixed \<and>
      mg_process E mixed (files w r) = Inr c \<and> upload_file E key = None \<and>
      f () (w\<lparr>files := (files w)(out \<mapsto> c), uploads := uploads w @ [(key, c)]\<rparr>) = Some (Inr y, w''))"
  by (auto simp: seq_def process_files_def upload_file_to_s3_def split: option.splits sum.splits)

lemma stage_and_process_unfolded:
  "stage_and_process E song_id file_name track_id path w = Some (Inr (), w') \<longleftrightarrow>
   (\<exists>n1 reference n2 instrumental n3 vocals mixed mastered.
      found_by E LAMBDA_STATIC_REFERENCE_WAV_PATH (head_calls w) = Some n1 \<and>
      download_file E LAMBDA_STATIC_REFERENCE_WAV_PATH = Inr reference \<and>
      found_by E path n1 = Some n2 \<and>
      download_file E path = Inr instrumental \<and>
      found_by E (lambda_vocals_path file_name) n2 = Some n3 \<and>
      download_file E (lambda_vocals_path file_name) = Inr vocals \<and>
      mix_tracks (pydub E)
        ((files w)(LOCAL_REFERENCE_PATH \<mapsto> reference, LOCAL_INSTRUMENTAL_PATH \<mapsto> instrumental,
                   local_vocals_path song_id \<mapsto> vocals))
        (local_vocals_path song_id) LOCAL_INSTRUMENTAL_PATH = Some mixed \<and>
      mg_process E mixed
        (((files w)(LOCAL_REFERENCE_PATH \<mapsto> reference, LOCAL_INSTRUMENTAL_PATH \<mapsto> instrumental,
                   local_vocals_path song_id \<mapsto> vocals)) LOCAL_REFERENCE_PATH) = Inr mastered \<and>
      upload_file E (''matchering/'' @ final_name song_id track_id) = None \<and>
      w' = w\<lparr>head_calls := n3,
              files := (files w)(LOCAL_REFERENCE_PATH \<mapsto> reference,
                                 LOCAL_INSTRUMENTAL_PATH \<mapsto> instrumental,
                                 local_vocals_path song_id \<mapsto> vocals,
                                 local_final_file song_id \<mapsto> mastered),
              uploads := uploads w @ [(''matchering/'' @ final_name song_id track_id, mastered)],
              events := events w @ [start_event song_id, end_event song_id track_id]\<rparr>)"
  unfolding stage_and_process_def
  by (simp add: seq_def [of "notify_system_api E song_id ''matchering'' ''start'' None None"]
      notify_eq wait_then_download process_then_upload start_event_def end_event_def
      del: fun_upd_apply)
     (auto simp del: fun_upd_apply)

lemma stage_and_process_succeeds:
  "(\<exists>w'. stage_and_process E song_id file_name track_id path w = Some (Inr (), w')) \<longleftrightarrow>
   (case found_by E LAMBDA_STATIC_REFERENCE_WAV_PATH (head_calls w) of
        None \<Rightarrow> False
      | Some n1 \<Rightarrow>
     (case download_file E LAMBDA_STATIC_REFERENCE_WAV_PATH of
        Inl e \<Rightarrow> False
      | Inr reference \<Rightarrow>
     (case found_by E path n1 of
        None \<Rightarrow> False
      | Some n2 \<Rightarrow>
     (case download_file E path of
        Inl e \<Rightarrow> False
      | Inr instrumental \<Rightarrow>
     (case found_by E (lambda_vocals_path file_name) n2 of
        None \<Rightarrow> False
      | Some n3 \<Rightarrow>
     (case download_file E (lambda_vocals_path file_name) of
        Inl e \<Rightarrow> False
      | Inr vocals \<Rightarrow>
     (let staged = (files w)(LOCAL_REFERENCE_PATH \<mapsto> reference,
                             LOCAL_INSTRUMENTAL_PATH \<mapsto> instrumental,
                             local_vocals_path song_id \<mapsto> vocals)
      in case mix_tracks (pydub E) staged (local_vocals_path song_id) LOCAL_INSTRUMENTAL_PATH of
           None \<Rightarrow> False
         | Some mixed \<Rightarrow>
             (case mg_process E mixed (staged LOCAL_REFERENCE_PATH) of
                Inl e \<Rightarrow> False
              | Inr mastered \<Rightarrow>
                  upload_file E (''matchering/'' @ final_name song_id track_id) = None))))))))"
  (is "?l \<longleftrightarrow> ?r")
proof
  assume ?l
  then obtain w' where "stage_and_process E song_id file_name track_id path w = Some (Inr (), w')"
    by blast
  then obtain n1 reference n2 instrumental n3 vocals mixed mastered where
      "found_by E LAMBDA_STATIC_REFERENCE_WAV_PATH (head_calls w) = Some n1"
      "download_file E LAMBDA_STATIC_REFERENCE_WAV_PATH = Inr reference"
      "found_by E path n1 = Some n2"
      "download_file E path = Inr instrumental"
      "found_by E (lambda_vocals_path file_name) n2 = Some n3"
      "download_file E (lambda_vocals_path file_name) = Inr vocals"
      "mix_tracks (pydub E)
        ((files w)(LOCAL_REFERENCE_PATH \<mapsto> reference, LOCAL_INSTRUMENTAL_PATH \<mapsto> instrumental,
                   local_vocals_path song_id \<mapsto> vocals))
        (local_vocals_path song_id) LOCAL_INSTRUMENTAL_PATH = Some mixed"
      "mg_process E mixed
        (((files w)(LOCAL_REFERENCE_PATH \<mapsto> reference, LOCAL_INSTRUMENTAL_PATH \<mapsto> instrumental,
                   local_vocals_path song_id \<mapsto> vocals)) LOCAL_REFERENCE_PATH) = Inr mastered"
      "upload_file E (''matchering/'' @ final_name song_id track_id) = None"
    unfolding stage_and_process_unfolded by blast
  then show ?r by (simp del: fun_upd_apply)
next
  assume r: ?r
  obtain n1 where n1: "found_by E LAMBDA_STATIC_REFERENCE_WAV_PATH (head_calls w) = Some n1"
    using r by (cases "found_by E LAMBDA_STATIC_REFERENCE_WAV_PATH (head_calls w)") simp_all
  obtain reference where c1: "download_file E LAMBDA_STATIC_REFERENCE_WAV_PATH = Inr reference"
    using r n1 by (cases "download_file E LAMBDA_STATIC_REFERENCE_WAV_PATH") simp_all
  obtain n2 where n2: "found_by E path n1 = Some n2"
    using r n1 c1 by (cases "found_by E path n1") simp_all
  obtain instrumental where c2: "download_file E path = Inr instrumental"
    using r n1 c1 n2 by (cases "download_file E path") simp_all
  obtain n3 where n3: "found_by E (lambda_vocals_path file_name) n2 = Some n3"
    using r n1 c1 n2 c2 by (cases "found_by E (lambda_vocals_path file_name) n2") simp_all
  obtain vocals where c3: "download_file E (lambda_vocals_path file_name) = Inr vocals"
    using r n1 c1 n2 c2 n3 by (cases "download_file E (lambda_vocals_path file_name)") simp_all
  let ?staged = "(files w)(LOCAL_REFERENCE_PATH \<mapsto> reference, LOCAL_INSTRUMENTAL_PATH \<mapsto> instrumental,
                   local_vocals_path song_id \<mapsto> vocals)"
  have r': "(case mix_tracks (pydub E) ?staged (local_vocals_path song_id) LOCAL_INSTRUMENTAL_PATH of
           None \<Rightarrow> False
         | Some mixed \<Rightarrow>
             (case mg_process E mixed (?staged LOCAL_REFERENCE_PATH) of
                Inl e \<Rightarrow> False
              | Inr mastered \<Rightarrow>
                  upload_file E (''matchering/'' @ final_name song_id track_id) = None))"
    using r n1 c1 n2 c2 n3 c3 by (simp add: Let_def del: fun_upd_apply)
  obtain mixed where m: "mix_tracks (pydub E) ?staged (local_vocals_path song_id) LOCAL_INSTRUMENTAL_PATH = Some mixed"
    using r' by (cases "mix_tracks (pydub E) ?staged (local_vocals_path song_id) LOCAL_INSTRUMENTAL_PATH") simp_all
  obtain mastered where g: "mg_process E mixed (?staged LOCAL_REFERENCE_PATH) = Inr mastered"
    using r' m by (cases "mg_process E mixed (?staged LOCAL_REFERENCE_PATH)") (simp_all del: fun_upd_apply)
  have u: "upload_file E (''matchering/'' @ final_name song_id track_id) = None"
    using r' m g by (simp del: fun_upd_apply)
  show ?l
    unfolding stage_and_process_unfolded using n1 c1 n2 c2 n3 c3 m g u by blast
qed

lemma job_steps_succeeds:
  "(\<exists>w'. job_steps E song_id file_name track_id w = Some (Inr (), w')) \<longleftrightarrow>
   all_steps_succeed E song_id file_name track_id w"
proof (cases "TRACK_FILENAMES track_id")
  case None
  then show ?thesis
    using job_steps_unmapped [OF None, of E song_id file_name w]
    by (simp add: all_steps_succeed_def)
next
  case (Some f)
  have f: "files (w\<lparr>instrumental_wav_path := Some (''static/audio/'' @ f)\<rparr>) = files w"
    and h: "head_calls (w\<lparr>instrumental_wav_path := Some (''static/audio/'' @ f)\<rparr>) = head_calls w"
    by simp_all
  show ?thesis
    unfolding job_steps_mapped [OF Some] stage_and_process_succeeds all_steps_succeed_def f h
    by (simp add: Some del: fun_upd_apply)
qed

lemma handle_record_returns:
  "\<exists>res s' w'. handle_record E r s w = Some (res, s', w') \<and>
     s' = (case r of Body b \<Rightarrow> body_get b ''songID'' | Unreadable x \<Rightarrow> s) \<and>
     (\<exists>es. events w' = events w @ es \<and>
        (\<forall>ev\<in>set es. ev_action ev = ''start'' \<or> ev_action ev = ''end''))"
proof (cases r)
  case (Unreadable x)
  then show ?thesis by (simp add: handle_record_def)
next
  case (Body b)
  let ?sid = "body_get b ''songID''" and ?tid = "body_get b ''trackID''"
  obtain res w' where j: "job_steps E ?sid (body_get b ''fileName'') ?tid w = Some (res, w')"
    and e: "events w' = events w @
       (case res of
          Inl e \<Rightarrow> if TRACK_FILENAMES ?tid = None then [] else [start_event ?sid]
        | Inr x \<Rightarrow> [start_event ?sid, end_event ?sid ?tid])"
    using job_steps_returns [of E ?sid "body_get b ''fileName''" ?tid w] by blast
  have hr: "handle_record E r s w = Some (res, ?sid, w')"
    using j Body by (simp add: handle_record_def)
  have "\<forall>ev\<in>set (case res of
          Inl e \<Rightarrow> if TRACK_FILENAMES ?tid = None then [] else [start_event ?sid]
        | Inr x \<Rightarrow> [start_event ?sid, end_event ?sid ?tid]). ev_action ev = ''start'' \<or> ev_action ev = ''end''"
    by (cases res) (simp_all add: start_event_def end_event_def)
  then show ?thesis using hr e Body by auto
qed

lemma records_loop_returns:
  "\<exists>res s' w'. records_loop E rs s w = Some (res, s', w') \<and>
     (\<exists>es. events w' = events w @ es \<and>
        (\<forall>ev\<in>set es. ev_action ev = ''start'' \<or> ev_action ev = ''end''))"
proof (induction rs arbitrary: s w)
  case Nil
  show ?case by simp
next
  case (Cons r rs)
  obtain res s1 w1 es1 where h: "handle_record E r s w = Some (res, s1, w1)"
    and e1: "events w1 = events w @ es1"
    and a1: "\<forall>ev\<in>set es1. ev_action ev = ''start'' \<or> ev_action ev = ''end''"
    using handle_record_returns [of E r s w] by blast
  show ?case
  proof (cases res)
    case (Inl e)
    then have "records_loop E (r # rs) s w = Some (Inl e, s1, w1)" using h by simp
    then show ?thesis using e1 a1 by blast
  next
    case (Inr u)
    obtain res2 s2 w2 es2 where l: "records_loop E rs s1 w1 = Some (res2, s2, w2)"
      and e2: "events w2 = events w1 @ es2"
      and a2: "\<forall>ev\<in>set es2. ev_action ev = ''start'' \<or> ev_action ev = ''end''"
      using Cons.IH [of s1 w1] by blast
    have "records_loop E (r # rs) s w = Some (res2, s2, w2)" using h Inr l by simp
    moreover have "events w2 = events w @ (es1 @ es2)" using e1 e2 by simp
    moreover have "\<forall>ev\<in>set (es1 @ es2). ev_action ev = ''start'' \<or> ev_action ev = ''end''"
      using a1 a2 by auto
    ultimately show ?thesis by blast
  qed
qed

lemma records_loop_append:
  "records_loop E pre s w = Some (Inr (), s1, w1) \<Longrightarrow>
   records_loop E (pre @ rest) s w = records_loop E rest s1 w1"
proof (induction pre arbitrary: s w)
  case Nil
  then show ?case by simp
next
  case (Cons p pre)
  obtain res s' w' where h: "handle_record E p s w = Some (res, s', w')"
    using handle_record_returns [of E p s w] by blast
  show ?case
  proof (cases res)
    case (Inl x)
    then show ?thesis using h Cons.prems by simp
  next
    case (Inr u)
    then have "records_loop E pre s' w' = Some (Inr (), s1, w1)" using h Cons.prems by simp
    then have "records_loop E (pre @ rest) s' w' = records_loop E rest s1 w1"
      by (rule Cons.IH)
    then show ?thesis using h Inr by simp
  qed
qed

text \<open>
  Claim C2, as the code has it, for a Job at any place of an event: the records before it
  went through, so it is processed. Its processing ends in success exactly when every step
  of the spec succeeds. On success it has sent the \<open>start\<close> event and then the \<open>end\<close>
  event, and nothing else; the handler goes on with the records after it, with \<open>song_id\<close>
  still the one of this Job, so that when the next record cannot be read the \<open>error\<close>
  event of the handler carries the \<open>songID\<close> of this Job. On failure it has sent the \<open>start\<close> event when the
  \<open>trackID\<close> is a key of the catalog and nothing when it is not, and the handler then
  sends the \<open>error\<close> event with the \<open>songID\<close> of the Job and the message of the
  exception, cleans up and returns: nothing more is sent.
\<close>

theorem one_terminal_event_per_job:
  assumes "records_loop E pre (JInt 0) w = Some (Inr (), s1, w1)"
  shows "\<exists>r w2.
     handle_record E (Body b) s1 w1 = Some (r, body_get b ''songID'', w2) \<and>
     (r = Inr () \<longleftrightarrow>
        all_steps_succeed E (body_get b ''songID'') (body_get b ''fileName'') (body_get b ''trackID'') w1) \<and>
     (case r of
        Inr u \<Rightarrow>
          events w2 = events w1 @
            [start_event (body_get b ''songID''),
             end_event (body_get b ''songID'') (body_get b ''trackID'')] \<and>
          (\<exists>res s' w3.
             records_loop E post (body_get b ''songID'') w2 = Some (res, s', w3) \<and>
             lambda_handler E (Some (pre @ Body b # post)) w =
               Some (Inr (), cleanup E
                 (case res of
                    Inr u \<Rightarrow> w3
                  | Inl e \<Rightarrow> w3\<lparr>log := log w3 @ [LogError (''Error in lambda_handler: '' @ err_str e)],
                                events := events w3 @ [error_event s' (err_str e)]\<rparr>))) \<and>
          (\<forall>x rest. post = Unreadable x # rest \<longrightarrow>
             lambda_handler E (Some (pre @ Body b # post)) w =
               Some (Inr (), cleanup E
                 (w2\<lparr>log := log w2 @ [LogError (''Error in lambda_handler: '' @ err_str x)],
                     events := events w2 @ [error_event (body_get b ''songID'') (err_str x)]\<rparr>)))
      | Inl e \<Rightarrow>
          events w2 = events w1 @
            (if TRACK_FILENAMES (body_get b ''trackID'') = None then []
             else [start_event (body_get b ''songID'')]) \<and>
          lambda_handler E (Some (pre @ Body b # post)) w =
            Some (Inr (), cleanup E
              (w2\<lparr>log := log w2 @ [LogError (''Error in lambda_handler: '' @ err_str e)],
                  events := events w2 @ [error_event (body_get b ''songID'') (err_str e)]\<rparr>)))"
proof -
  let ?sid = "body_get b ''songID''" and ?tid = "body_get b ''trackID''"
  let ?fn = "body_get b ''fileName''"
  obtain r w2 where j: "job_steps E ?sid ?fn ?tid w1 = Some (r, w2)"
    and e: "events w2 = events w1 @
       (case r of
          Inl e \<Rightarrow> if TRACK_FILENAMES ?tid = None then [] else [start_event ?sid]
        | Inr x \<Rightarrow> [start_event ?sid, end_event ?sid ?tid])"
    using job_steps_returns [of E ?sid ?fn ?tid w1] by blast
  have h: "handle_record E (Body b) s1 w1 = Some (r, ?sid, w2)"
    using j by (simp add: handle_record_def)
  have s: "r = Inr () \<longleftrightarrow> all_steps_succeed E ?sid ?fn ?tid w1"
    using job_steps_succeeds [of E ?sid ?fn ?tid w1] j by auto
  have l: "records_loop E (pre @ Body b # post) (JInt 0) w = records_loop E (Body b # post) s1 w1"
    by (rule records_loop_append [OF assms])
  show ?thesis
  proof (cases r)
    case (Inl err)
    have "records_loop E (pre @ Body b # post) (JInt 0) w = Some (Inl err, ?sid, w2)"
      using l h Inl by simp
    then have t: "try_block E (Some (pre @ Body b # post)) w = Some (Inl err, ?sid, w2)"
      by (simp add: try_block_def)
    have "lambda_handler E (Some (pre @ Body b # post)) w =
            Some (Inr (), cleanup E
              (w2\<lparr>log := log w2 @ [LogError (''Error in lambda_handler: '' @ err_str err)],
                  events := events w2 @ [error_event ?sid (err_str err)]\<rparr>))"
      using handler_after_try [OF t] by simp
    then show ?thesis using h s e Inl by simp
  next
    case (Inr u)
    obtain res s' w3 where p: "records_loop E post ?sid w2 = Some (res, s', w3)"
      using records_loop_returns [of E post ?sid w2] by blast
    have "records_loop E (pre @ Body b # post) (JInt 0) w = Some (res, s', w3)"
      using l h Inr p by simp
    then have t: "try_block E (Some (pre @ Body b # post)) w = Some (res, s', w3)"
      by (simp add: try_block_def)
    have a: "lambda_handler E (Some (pre @ Body b # post)) w =
               Some (Inr (), cleanup E
                 (case res of
                    Inr u \<Rightarrow> w3
                  | Inl e \<Rightarrow> w3\<lparr>log := log w3 @ [LogError (''Error in lambda_handler: '' @ err_str e)],
                                events := events w3 @ [error_event s' (err_str e)]\<rparr>))"
      by (rule handler_after_try [OF t])
    have x: "\<forall>x rest. post = Unreadable x # rest \<longrightarrow>
             lambda_handler E (Some (pre @ Body b # post)) w =
               Some (Inr (), cleanup E
                 (w2\<lparr>log := log w2 @ [LogError (''Error in lambda_handler: '' @ err_str x)],
                     events := events w2 @ [error_event ?sid (err_str x)]\<rparr>))"
    proof (intro allI impI)
      fix x rest
      assume "post = Unreadable x # rest"
      then have "records_loop E post ?sid w2 = Some (Inl x, ?sid, w2)"
        by (simp add: handle_record_def)
      then have "res = Inl x" "s' = ?sid" "w3 = w2" using p by simp_all
      then show "lambda_handler E (Some (pre @ Body b # post)) w =
               Some (Inr (), cleanup E
                 (w2\<lparr>log := log w2 @ [LogError (''Error in lambda_handler: '' @ err_str x)],
                     events := events w2 @ [error_event ?sid (err_str x)]\<rparr>))"
        using a by simp
    qed
    show ?thesis using h s e Inr p a x by simp
  qed
qed

theorem one_terminal_event_per_job_witness:
  "\<exists>w1 w2.
     records_loop all_present [Body job_42] (JInt 0) fresh_world = Some (Inr (), JInt 42, w1) \<and>
     all_steps_succeed all_present (body_get job_42 ''songID'') (body_get job_42 ''fileName'')
       (body_get job_42 ''trackID'') w1 \<and>
     handle_record all_present (Body job_42) (JInt 42) w1 =
       Some (Inr (), body_get job_42 ''songID'', w2) \<and>
     events w2 = events w1 @
       [start_event (body_get job_42 ''songID''),
        end_event (body_get job_42 ''songID'') (body_get job_42 ''trackID'')]"
proof -
  have "\<exists>w1. records_loop all_present [Body job_42] (JInt 0) fresh_world = Some (Inr (), JInt 42, w1)"
    by (simp add: run_defs)
  then obtain w1 where
    p: "records_loop all_present [Body job_42] (JInt 0) fresh_world = Some (Inr (), JInt 42, w1)"
    by blast
  have g: "all_steps_succeed all_present (body_get job_42 ''songID'') (body_get job_42 ''fileName'')
       (body_get job_42 ''trackID'') w1"
    by (simp add: all_steps_succeed_def found_by_def run_defs)
  obtain r w2 where
    h: "handle_record all_present (Body job_42) (JInt 42) w1 = Some (r, body_get job_42 ''songID'', w2)"
    and s: "r = Inr () \<longleftrightarrow>
        all_steps_succeed all_present (body_get job_42 ''songID'') (body_get job_42 ''fileName'')
          (body_get job_42 ''trackID'') w1"
    and c: "r = Inr () \<longrightarrow> events w2 = events w1 @
            [start_event (body_get job_42 ''songID''),
             end_event (body_get job_42 ''songID'') (body_get job_42 ''trackID'')]"
    using one_terminal_event_per_job [OF p, of job_42 "[]"] by auto
  have r: "r = Inr ()" using s g by simp
  show ?thesis using p g h r c by blast
qed

text \<open>
  Claim C2 as stated fails in two ways. A Job whose \<open>trackID\<close> is not in the catalog gets
  its \<open>error\<close> event and no \<open>start\<close> event at all. And in an event of two records, the
  scenario Job followed by a record that cannot be read, the events carrying the
  \<open>songID\<close> 42 are \<open>start\<close>, \<open>end\<close> and then \<open>error\<close>: both terminal events.
\<close>

theorem start_missing_and_error_after_end:
  "(case lambda_handler all_present
           (Some [Body [''songID'' \<mapsto> JInt 42, ''fileName'' \<mapsto> JStr ''v42.wav'', ''trackID'' \<mapsto> JInt 9]])
           fresh_world of
      None \<Rightarrow> False
    | Some (r, w') \<Rightarrow> r = Inr () \<and> map ev_action (events w') = [''error'']) \<and>
   (case lambda_handler all_present
           (Some [Body job_42, Unreadable (RecordError ''Extra data'')]) fresh_world of
      None \<Rightarrow> False
    | Some (r, w') \<Rightarrow>
        r = Inr () \<and>
        map ev_action (filter (\<lambda>ev. ev_songID ev = JInt 42) (events w')) =
          [''start'', ''end'', ''error''])"
  by (simp add: run_defs)

text \<open>
  Claim C4, as the code has it. When the \<open>trackID\<close> of a Job is not a key of the catalog,
  the steps of the Job raise and leave the world as it was: no probe, no download, no
  upload, no event. The exception is \<open>ValueError('Region or track ID is missing.')\<close> when
  the \<open>trackID\<close> is falsy (absent, \<open>null\<close>, zero, \<open>false\<close>, empty); for a truthy
  \<open>trackID\<close> it is the \<open>TypeError\<close> of the lookup when the \<open>trackID\<close> is a list or a
  dictionary, which cannot be hashed, and \<open>ValueError('Invalid trackID: ...')\<close> otherwise.
  The handler then sends exactly one \<open>error\<close> event with that message and returns
  normally; every local file present afterwards was there before.
\<close>

theorem unmapped_track_fails_before_staging:
  assumes "TRACK_FILENAMES (body_get b ''trackID'') = None"
  shows "\<exists>err w'.
     err = (if \<not> truthy (body_get b ''trackID'')
            then ValueError ''Region or track ID is missing.''
            else case unhashable (body_get b ''trackID'') of
                   Some type_name \<Rightarrow> TypeError (''unhashable type: '' @ repr_str type_name)
                 | None \<Rightarrow> ValueError (''Invalid trackID: '' @ py_str (body_get b ''trackID''))) \<and>
     job_steps E (body_get b ''songID'') (body_get b ''fileName'') (body_get b ''trackID'') w =
       Some (Inl err, w) \<and>
     lambda_handler E (Some [Body b]) w = Some (Inr (), w') \<and>
     events w' = events w @ [error_event (body_get b ''songID'') (err_str err)] \<and>
     head_calls w' = head_calls w \<and> uploads w' = uploads w \<and>
     (\<forall>p. files w' p \<noteq> None \<longrightarrow> files w' p = files w p)"
proof -
  let ?sid = "body_get b ''songID''" and ?tid = "body_get b ''trackID''"
  define err where "err = (if \<not> truthy ?tid
            then ValueError ''Region or track ID is missing.''
            else case unhashable ?tid of
                   Some type_name \<Rightarrow> TypeError (''unhashable type: '' @ repr_str type_name)
                 | None \<Rightarrow> ValueError (''Invalid trackID: '' @ py_str ?tid))"
  let ?w2 = "w\<lparr>log := log w @ [LogError (''Error in lambda_handler: '' @ err_str err)],
                events := events w @ [error_event ?sid (err_str err)]\<rparr>"
  have j: "job_steps E ?sid (body_get b ''fileName'') ?tid w = Some (Inl err, w)"
    unfolding err_def by (rule job_steps_unmapped [OF assms])
  have h: "lambda_handler E (Some [Body b]) w = Some (Inr (), cleanup E ?w2)"
    using handler_after_try [OF try_single [OF j]] by simp
  have e: "events (cleanup E ?w2) = events w @ [error_event ?sid (err_str err)]"
    and c: "head_calls (cleanup E ?w2) = head_calls w"
    and u: "uploads (cleanup E ?w2) = uploads w"
    and f: "\<forall>p. files (cleanup E ?w2) p \<noteq> None \<longrightarrow> files (cleanup E ?w2) p = files w p"
    using cleanup_frame [of E ?w2] by simp_all
  show ?thesis using err_def j h e c u f by blast
qed

theorem unmapped_track_fails_before_staging_witness:
  "TRACK_FILENAMES (body_get [''songID'' \<mapsto> JInt 42, ''trackID'' \<mapsto> JInt 9] ''trackID'') = None \<and>
   (\<exists>w'. lambda_handler all_present (Some [Body [''songID'' \<mapsto> JInt 42, ''trackID'' \<mapsto> JInt 9]])
           fresh_world = Some (Inr (), w') \<and>
         events w' = events fresh_world @
           [error_event (JInt 42) (''Invalid trackID: '' @ str_int 9)] \<and>
         head_calls w' = head_calls fresh_world) \<and>
   TRACK_FILENAMES (body_get [''songID'' \<mapsto> JInt 42, ''trackID'' \<mapsto> JArr [JInt 1]] ''trackID'') = None \<and>
   (\<exists>w'. lambda_handler all_present (Some [Body [''songID'' \<mapsto> JInt 42, ''trackID'' \<mapsto> JArr [JInt 1]]])
           fresh_world = Some (Inr (), w') \<and>
         events w' = events fresh_world @
           [error_event (JInt 42) (''unhashable type: '' @ repr_str ''list'')] \<and>
         head_calls w' = head_calls fresh_world)"
proof -
  let ?b = "[''songID'' \<mapsto> JInt 42, ''trackID'' \<mapsto> JInt 9]"
  let ?c = "[''songID'' \<mapsto> JInt 42, ''trackID'' \<mapsto> JArr [JInt 1]]"
  have h: "TRACK_FILENAMES (body_get ?b ''trackID'') = None" by (simp add: body_get_def)
  have k: "TRACK_FILENAMES (body_get ?c ''trackID'') = None" by (simp add: body_get_def)
  have g: "body_get ?b ''trackID'' = JInt 9" "body_get ?b ''songID'' = JInt 42"
    "body_get ?c ''trackID'' = JArr [JInt 1]" "body_get ?c ''songID'' = JInt 42"
    by (simp_all add: body_get_def)
  have p: "\<exists>w'. lambda_handler all_present (Some [Body ?b]) fresh_world = Some (Inr (), w') \<and>
         events w' = events fresh_world @
           [error_event (JInt 42) (''Invalid trackID: '' @ str_int 9)] \<and>
         head_calls w' = head_calls fresh_world"
    using unmapped_track_fails_before_staging [OF h, of all_present fresh_world]
    unfolding g by auto
  have q: "\<exists>w'. lambda_handler all_present (Some [Body ?c]) fresh_world = Some (Inr (), w') \<and>
         events w' = events fresh_world @
           [error_event (JInt 42) (''unhashable type: '' @ repr_str ''list'')] \<and>
         head_calls w' = head_calls fresh_world"
    using unmapped_track_fails_before_staging [OF k, of all_present fresh_world]
    unfolding g by auto
  show ?thesis using h k p q by blast
qed

text \<open>
  Claim C4 as stated fails for \<open>trackID\<close> 0, which is not a key of the catalog: the
  failure is the one of a missing \<open>trackID\<close>, raised before the catalog is consulted, and
  not the unknown-track failure the catalog lookup raises.
\<close>

theorem track_id_zero_is_not_unknown_track:
  "TRACK_FILENAMES (JInt 0) = None \<and>
   get_dynamic_s3_paths (JInt 0) = Inl (ValueError ''Invalid trackID: 0'') \<and>
   job_steps all_present (JInt 42) (JStr ''v42.wav'') (JInt 0) fresh_world =
     Some (Inl (ValueError ''Region or track ID is missing.''), fresh_world)"
  by (simp add: get_dynamic_s3_paths_def str_int_0 job_steps_def throw_def)

section \<open>Parsing a Job\<close>

text \<open>
  Claim C5, as the code has it. A record whose body has no \<open>trackID\<close> fails with
  \<open>ValueError('Region or track ID is missing.')\<close> and the world is left as it was, so
  nothing is staged. A missing \<open>fileName\<close> is not checked: \<open>file_name\<close> is \<open>None\<close>, the
  vocals key is \<open>utau_inference/None\<close>, and when the \<open>trackID\<close> is in the catalog the
  record goes on to staging: the \<open>start\<close> event is sent and the object store is probed.
\<close>

theorem missing_track_id_fails_missing_file_name_staged:
  "(b ''trackID'' = None \<longrightarrow>
      handle_record E (Body b) s w =
        Some (Inl (ValueError ''Region or track ID is missing.''), body_get b ''songID'', w)) \<and>
   (b ''fileName'' = None \<and> TRACK_FILENAMES (body_get b ''trackID'') \<noteq> None \<longrightarrow>
      lambda_vocals_path (body_get b ''fileName'') = ''utau_inference/None'' \<and>
      (\<exists>r w'. handle_record E (Body b) s w = Some (r, body_get b ''songID'', w') \<and>
         head_calls w < head_calls w' \<and>
         events w' = events w @ start_event (body_get b ''songID'') #
           (case r of Inl e \<Rightarrow> []
            | Inr u \<Rightarrow> [end_event (body_get b ''songID'') (body_get b ''trackID'')])))"
proof (intro conjI impI)
  assume "b ''trackID'' = None"
  then have "\<not> truthy (body_get b ''trackID'')" by (simp add: body_get_def)
  then show "handle_record E (Body b) s w =
        Some (Inl (ValueError ''Region or track ID is missing.''), body_get b ''songID'', w)"
    by (simp add: handle_record_def job_steps_def throw_def)
next
  assume a: "b ''fileName'' = None \<and> TRACK_FILENAMES (body_get b ''trackID'') \<noteq> None"
  then show "lambda_vocals_path (body_get b ''fileName'') = ''utau_inference/None''"
    by (simp add: lambda_vocals_path_def body_get_def)
next
  assume a: "b ''fileName'' = None \<and> TRACK_FILENAMES (body_get b ''trackID'') \<noteq> None"
  let ?sid = "body_get b ''songID''" and ?tid = "body_get b ''trackID''"
  obtain r w' where j: "job_steps E ?sid (body_get b ''fileName'') ?tid w = Some (r, w')"
    and h: "TRACK_FILENAMES ?tid \<noteq> None \<longrightarrow> head_calls w < head_calls w'"
    and e: "events w' = events w @
       (case r of
          Inl e \<Rightarrow> if TRACK_FILENAMES ?tid = None then [] else [start_event ?sid]
        | Inr x \<Rightarrow> [start_event ?sid, end_event ?sid ?tid])"
    using job_steps_returns [of E ?sid "body_get b ''fileName''" ?tid w] by blast
  have hr: "handle_record E (Body b) s w = Some (r, ?sid, w')"
    using j by (simp add: handle_record_def)
  have e': "events w' = events w @ start_event ?sid #
           (case r of Inl e \<Rightarrow> [] | Inr u \<Rightarrow> [end_event ?sid ?tid])"
    using e a by (cases r) simp_all
  show "\<exists>r w'. handle_record E (Body b) s w = Some (r, ?sid, w') \<and>
         head_calls w < head_calls w' \<and>
         events w' = events w @ start_event ?sid #
           (case r of Inl e \<Rightarrow> [] | Inr u \<Rightarrow> [end_event ?sid ?tid])"
    using hr h a e' by blast
qed

theorem missing_track_id_fails_missing_file_name_staged_witness:
  "[''songID'' \<mapsto> JInt 42, ''fileName'' \<mapsto> JStr ''v42.wav''] ''trackID'' = None \<and>
   handle_record all_present (Body [''songID'' \<mapsto> JInt 42, ''fileName'' \<mapsto> JStr ''v42.wav'']) (JInt 0) fresh_world =
     Some (Inl (ValueError ''Region or track ID is missing.''), JInt 42, fresh_world) \<and>
   [''songID'' \<mapsto> JInt 42, ''trackID'' \<mapsto> JInt 2] ''fileName'' = None \<and>
   TRACK_FILENAMES (body_get [''songID'' \<mapsto> JInt 42, ''trackID'' \<mapsto> JInt 2] ''trackID'') \<noteq> None \<and>
   (\<exists>r w'. handle_record all_present (Body [''songID'' \<mapsto> JInt 42, ''trackID'' \<mapsto> JInt 2]) (JInt 0) fresh_world =
        Some (r, JInt 42, w') \<and> head_calls fresh_world < head_calls w')"
proof -
  let ?b1 = "[''songID'' \<mapsto> JInt 42, ''fileName'' \<mapsto> JStr ''v42.wav'']"
  let ?b2 = "[''songID'' \<mapsto> JInt 42, ''trackID'' \<mapsto> JInt 2]"
  have h1: "?b1 ''trackID'' = None" by simp
  have h2: "?b2 ''fileName'' = None \<and> TRACK_FILENAMES (body_get ?b2 ''trackID'') \<noteq> None"
    by (simp add: body_get_def)
  have g: "body_get ?b1 ''songID'' = JInt 42" "body_get ?b2 ''songID'' = JInt 42"
    by (simp_all add: body_get_def)
  have p1: "handle_record all_present (Body ?b1) (JInt 0) fresh_world =
     Some (Inl (ValueError ''Region or track ID is missing.''), JInt 42, fresh_world)"
    using missing_track_id_fails_missing_file_name_staged [of ?b1 all_present "JInt 0" fresh_world] h1 g
    by simp
  have p2: "\<exists>r w'. handle_record all_present (Body ?b2) (JInt 0) fresh_world =
        Some (r, JInt 42, w') \<and> head_calls fresh_world < head_calls w'"
    using missing_track_id_fails_missing_file_name_staged [of ?b2 all_present "JInt 0" fresh_world] h2 g
    by auto
  show ?thesis using h1 h2 p1 p2 by blast
qed

text \<open>
  Claim C5 as stated fails for a missing \<open>fileName\<close>: with every object present
  (\<open>utau_inference/None\<close> included), the Job without a \<open>fileName\<close> is staged, processed
  and uploaded, and ends with the \<open>end\<close> event.
\<close>

theorem missing_file_name_is_processed:
  "(case lambda_handler all_present (Some [Body [''songID'' \<mapsto> JInt 42, ''trackID'' \<mapsto> JInt 2]])
           fresh_world of
      None \<Rightarrow> False
    | Some (r, w') \<Rightarrow>
        r = Inr () \<and> map ev_action (events w') = [''start'', ''end''] \<and>
        map fst (uploads w') = [''matchering/final_song_42_2.wav''] \<and> head_calls w' = 3)"
  by (simp add: run_defs)


section \<open>The handler as a whole\<close>

lemma try_block_returns: "\<exists>res s' w'. try_block E event w = Some (res, s', w')"
proof (cases event)
  case None
  then show ?thesis by (simp add: try_block_def)
next
  case (Some rs)
  then show ?thesis using records_loop_returns [of E rs "JInt 0" w] by (auto simp: try_block_def)
qed

text \<open>
  Claim C6: for every event, every environment and every world, the handler returns, and
  returns normally. When the \<open>try\<close> block raised, the world it left gets the error log
  line and one \<open>error\<close> event carrying \<open>str(e)\<close>, and then the cleanup; when it did not,
  the world it left gets the cleanup.
\<close>

theorem handler_never_raises:
  "\<exists>res song_id w1.
     try_block E event w = Some (res, song_id, w1) \<and>
     lambda_handler E event w =
       Some (Inr (), cleanup E
         (case res of
            Inr u \<Rightarrow> w1
          | Inl e \<Rightarrow> w1\<lparr>log := log w1 @ [LogError (''Error in lambda_handler: '' @ err_str e)],
                        events := events w1 @ [error_event song_id (err_str e)]\<rparr>))"
proof -
  obtain res song_id w1 where t: "try_block E event w = Some (res, song_id, w1)"
    using try_block_returns [of E event w] by blast
  show ?thesis using t handler_after_try [OF t] by blast
qed

theorem handler_never_raises_witness:
  "\<exists>res song_id w1.
     try_block all_present None fresh_world = Some (res, song_id, w1) \<and>
     lambda_handler all_present None fresh_world =
       Some (Inr (), cleanup all_present
         (case res of
            Inr u \<Rightarrow> w1
          | Inl e \<Rightarrow> w1\<lparr>log := log w1 @ [LogError (''Error in lambda_handler: '' @ err_str e)],
                        events := events w1 @ [error_event song_id (err_str e)]\<rparr>))"
  by (rule handler_never_raises [of all_present None fresh_world])

section \<open>Several records in one event\<close>

lemma records_loop_append_fail:
  "records_loop E pre s w = Some (Inr (), s1, w1) \<Longrightarrow>
   handle_record E r s1 w1 = Some (Inl e, s2, w2) \<Longrightarrow>
   records_loop E (pre @ r # post) s w = Some (Inl e, s2, w2)"
proof (induction pre arbitrary: s w)
  case Nil
  then show ?case by simp
next
  case (Cons p pre)
  obtain res s' w' where h: "handle_record E p s w = Some (res, s', w')"
    using handle_record_returns [of E p s w] by blast
  show ?case
  proof (cases res)
    case (Inl x)
    then show ?thesis using h Cons.prems(1) by simp
  next
    case (Inr u)
    then have "records_loop E pre s' w' = Some (Inr (), s1, w1)" using h Cons.prems(1) by simp
    then have "records_loop E (pre @ r # post) s' w' = Some (Inl e, s2, w2)"
      using Cons.IH Cons.prems(2) by blast
    then show ?thesis using h Inr by simp
  qed
qed

lemma records_loop_song_id:
  "records_loop E pre s w = Some (Inr (), s1, w1) \<Longrightarrow>
   (pre = [] \<longrightarrow> s1 = s) \<and>
   (pre \<noteq> [] \<longrightarrow> (\<exists>b. last pre = Body b \<and> s1 = body_get b ''songID''))"
proof (induction pre arbitrary: s w)
  case Nil
  then show ?case by simp
next
  case (Cons p pre)
  obtain res s' w' where h: "handle_record E p s w = Some (res, s', w')"
    and sid: "s' = (case p of Body b \<Rightarrow> body_get b ''songID'' | Unreadable x \<Rightarrow> s)"
    using handle_record_returns [of E p s w] by blast
  show ?case
  proof (cases res)
    case (Inl x)
    then show ?thesis using h Cons.prems by simp
  next
    case (Inr u)
    then have l: "records_loop E pre s' w' = Some (Inr (), s1, w1)" using h Cons.prems by simp
    have pb: "\<exists>b. p = Body b"
    proof (cases p)
      case (Body b) then show ?thesis by simp
    next
      case (Unreadable x)
      then show ?thesis using h Inr by (simp add: handle_record_def)
    qed
    show ?thesis
    proof (cases "pre = []")
      case True
      then have "s1 = s'" using l by simp
      then show ?thesis using True pb sid by auto
    next
      case False
      then show ?thesis using Cons.IH [OF l] by simp
    qed
  qed
qed

text \<open>
  Claim C10, as the code has it. When the records before \<open>r\<close> went through and \<open>r\<close>
  raises, the handler's result does not depend on the records after \<open>r\<close>: they are not
  processed. The world the failing record left gets the error log line, one \<open>error\<close>
  event and the cleanup; no other \<open>error\<close> event is sent for the batch. The event
  carries the value of the variable \<open>song_id\<close> at that moment: the \<open>songID\<close> read from
  the body of \<open>r\<close> (\<open>None\<close> when the body has none), or, when \<open>r\<close> could not be read,
  the \<open>songID\<close> of the record before it, or 0 when there is none.
\<close>

theorem failing_record_aborts_batch:
  assumes "records_loop E pre (JInt 0) w = Some (Inr (), s1, w1)"
    and "handle_record E r s1 w1 = Some (Inl e, s2, w2)"
  shows "lambda_handler E (Some (pre @ r # post)) w =
           Some (Inr (), cleanup E
             (w2\<lparr>log := log w2 @ [LogError (''Error in lambda_handler: '' @ err_str e)],
                 events := events w2 @ [error_event s2 (err_str e)]\<rparr>)) \<and>
         filter (\<lambda>ev. ev_action ev = ''error'') (events w2) =
           filter (\<lambda>ev. ev_action ev = ''error'') (events w) \<and>
         s2 = (case r of Body b \<Rightarrow> body_get b ''songID'' | Unreadable x \<Rightarrow> s1) \<and>
         (pre = [] \<longrightarrow> s1 = JInt 0) \<and>
         (pre \<noteq> [] \<longrightarrow> (\<exists>b. last pre = Body b \<and> s1 = body_get b ''songID''))"
proof -
  have l: "records_loop E (pre @ r # post) (JInt 0) w = Some (Inl e, s2, w2)"
    by (rule records_loop_append_fail [OF assms])
  then have t: "try_block E (Some (pre @ r # post)) w = Some (Inl e, s2, w2)"
    by (simp add: try_block_def)
  have a: "lambda_handler E (Some (pre @ r # post)) w =
           Some (Inr (), cleanup E
             (w2\<lparr>log := log w2 @ [LogError (''Error in lambda_handler: '' @ err_str e)],
                 events := events w2 @ [error_event s2 (err_str e)]\<rparr>))"
    using handler_after_try [OF t] by simp
  obtain es where es: "events w2 = events w @ es"
    and st: "\<forall>ev\<in>set es. ev_action ev = ''start'' \<or> ev_action ev = ''end''"
    using records_loop_returns [of E "pre @ r # post" "JInt 0" w] l by auto
  have "filter (\<lambda>ev. ev_action ev = ''error'') es = []"
    using st by (auto simp: filter_empty_conv)
  then have b: "filter (\<lambda>ev. ev_action ev = ''error'') (events w2) =
           filter (\<lambda>ev. ev_action ev = ''error'') (events w)"
    using es by simp
  have c: "s2 = (case r of Body b \<Rightarrow> body_get b ''songID'' | Unreadable x \<Rightarrow> s1)"
    using handle_record_returns [of E r s1 w1] assms(2) by auto
  have d: "(pre = [] \<longrightarrow> s1 = JInt 0) \<and>
         (pre \<noteq> [] \<longrightarrow> (\<exists>b. last pre = Body b \<and> s1 = body_get b ''songID''))"
    by (rule records_loop_song_id [OF assms(1)])
  show ?thesis using a b c d by blast
qed

theorem failing_record_aborts_batch_witness:
  "\<exists>w1 w'.
     records_loop all_present [Body job_42] (JInt 0) fresh_world = Some (Inr (), JInt 42, w1) \<and>
     handle_record all_present (Unreadable (RecordError ''Expecting value'')) (JInt 42) w1 =
       Some (Inl (RecordError ''Expecting value''), JInt 42, w1) \<and>
     lambda_handler all_present
       (Some ([Body job_42] @ Unreadable (RecordError ''Expecting value'') # [Body job_42])) fresh_world =
       Some (Inr (), w') \<and>
     w' = cleanup all_present
            (w1\<lparr>log := log w1 @ [LogError (''Error in lambda_handler: '' @ err_str (RecordError ''Expecting value''))],
                events := events w1 @ [error_event (JInt 42) (err_str (RecordError ''Expecting value''))]\<rparr>)"
proof -
  have "\<exists>w1. records_loop all_present [Body job_42] (JInt 0) fresh_world = Some (Inr (), JInt 42, w1)"
    by (simp add: run_defs)
  then obtain w1 where
    p: "records_loop all_present [Body job_42] (JInt 0) fresh_world = Some (Inr (), JInt 42, w1)"
    by blast
  have q: "handle_record all_present (Unreadable (RecordError ''Expecting value'')) (JInt 42) w1 =
       Some (Inl (RecordError ''Expecting value''), JInt 42, w1)"
    by (simp add: handle_record_def)
  show ?thesis
    using failing_record_aborts_batch [OF p q, of "[Body job_42]"] p q by blast
qed

text \<open>
  Claim C10 as stated fails when the failing record cannot be read: in the batch of the
  scenario Job followed by a record whose body is not JSON, the \<open>error\<close> event carries
  42, the \<open>songID\<close> of the first record, which had already ended; it is neither a
  \<open>songID\<close> of the failing record nor 0.
\<close>

theorem error_event_carries_previous_song_id:
  "(case lambda_handler all_present
           (Some [Body job_42, Unreadable (RecordError ''Expecting value'')]) fresh_world of
      None \<Rightarrow> False
    | Some (r, w') \<Rightarrow>
        r = Inr () \<and>
        map (\<lambda>ev. (ev_action ev, ev_songID ev)) (events w') =
          [(''start'', JInt 42), (''end'', JInt 42), (''error'', JInt 42)])"
  by (simp add: run_defs)

section \<open>The mixer\<close>

text \<open>
  When the vocals are shorter than the instrumental, the mixed buffer is the overlay of
  the instrumental on the padded vocals, and the padding is the silence the library gives
  for the missing duration alone. When the overlay keeps the duration of its base, as
  pydub's does, the mixed buffer is as long as the padded vocals: its duration is the
  instrumental's exactly when the padded vocals have that duration.
\<close>

lemma mix_duration_is_padded_duration:
  assumes "from_wav fls vocals_path = Some v" and "from_wav fls instrumental_path = Some i"
    and "seg_len L v < seg_len L i"
    and "seg_silent L (seg_len L i - seg_len L v) = Some silence"
    and "seg_add L v silence = Some padded"
    and "seg_overlay L padded i = Some m"
    and "seg_len L m = seg_len L padded"
  shows "mix_tracks L fls vocals_path instrumental_path = Some m \<and>
         (seg_len L m = seg_len L i \<longleftrightarrow> seg_len L padded = seg_len L i)"
  using assms by (simp add: mix_tracks_def)


end
